theory Spec2Isabelle
  imports Complex_Main "HOL-Library.Word"
begin

text \<open>
  \<^verbatim>\<open>src/index.tsx\<close> holds four successive variants of one application, each a complete
  program (they start at lines 1, 649, 1775 and 2650). The model follows the second
  variant, which has the voice activity gate, and the first variant where its code
  differs in what is proved about it (the tool-call loop, the face components). The
  audio codec, the output scheduler and the boredom counter are the same in both.
\<close>

section \<open>PCM codec\<close>

text \<open>
  The utility functions at the top of \<^verbatim>\<open>src/index.tsx\<close>: \<^verbatim>\<open>encode\<close>, \<^verbatim>\<open>decode\<close>,
  \<^verbatim>\<open>decodeAudioData\<close> and \<^verbatim>\<open>createBlob\<close>. They are the same in every variant of the
  application.

  A \<^verbatim>\<open>Uint8Array\<close> is a list of 8-bit words, an \<^verbatim>\<open>Int16Array\<close> a list of 16-bit words.
  A \<^verbatim>\<open>Float32Array\<close> element is a number or NaN. The arithmetic the codec does on it
  (multiplying and dividing by \<open>32768\<close>, a power of two, and truncating) is exact in
  IEEE arithmetic as long as no overflow to infinity happens, so numbers are modelled as
  reals; the infinities are not modelled.
\<close>

type_synonym byte = "8 word"
type_synonym int16 = "16 word"

datatype f32 = Num real | NaN

text \<open>
  The browser functions \<^verbatim>\<open>btoa\<close> and \<^verbatim>\<open>atob\<close> are not part of the repository; they are
  parameters of the model. A binary string is a list of 8-bit characters. The browser's
  \<^verbatim>\<open>atob\<close> raises on text that is not base64; here it is a total function, so what
  \<^verbatim>\<open>decode\<close> does with such text is outside the model.
\<close>

record platform =
  btoa :: "string \<Rightarrow> string"
  atob :: "string \<Rightarrow> string"

definition encode :: "platform \<Rightarrow> byte list \<Rightarrow> string" where
  \<comment> \<open>\<^verbatim>\<open>binary += String.fromCharCode(bytes[i])\<close> for every byte, then \<^verbatim>\<open>btoa(binary)\<close>\<close>
  "encode p bytes = btoa p (map (\<lambda>b. char_of (unat b)) bytes)"

definition decode :: "platform \<Rightarrow> string \<Rightarrow> byte list" where
  \<comment> \<open>\<^verbatim>\<open>bytes[i] = binaryString.charCodeAt(i)\<close> for every character of \<^verbatim>\<open>atob(base64)\<close>\<close>
  "decode p base64 = map (\<lambda>c. of_nat (of_char c)) (atob p base64)"

subsection \<open>Typed-array views\<close>

text \<open>
  \<^verbatim>\<open>new Uint8Array(int16.buffer)\<close> and \<^verbatim>\<open>new Int16Array(data.buffer)\<close> look at the same
  memory with another element size, in the byte order of the machine (little-endian on
  every platform a browser runs on): the low byte of a 16-bit element comes first.
\<close>

definition int16_bytes :: "int16 \<Rightarrow> byte list" where
  "int16_bytes w = [of_nat (unat w mod 256), of_nat (unat w div 256)]"

definition bytes_int16 :: "byte \<Rightarrow> byte \<Rightarrow> int16" where
  "bytes_int16 lo hi = of_nat (unat lo + 256 * unat hi)"

fun int16_view :: "byte list \<Rightarrow> int16 list" where
  "int16_view (lo # hi # rest) = bytes_int16 lo hi # int16_view rest"
| "int16_view _ = []"

subsection \<open>Encoding: \<^verbatim>\<open>createBlob\<close>\<close>

text \<open>
  \<^verbatim>\<open>int16[i] = data[i] * 32768\<close>: storing a number into an \<^verbatim>\<open>Int16Array\<close> applies the
  language's ToInt16 conversion, which drops the fraction (rounding towards zero), reduces
  the integer modulo \<open>2^16\<close> and reads the result as two's complement. NaN is stored as 0.
\<close>

definition js_trunc :: "real \<Rightarrow> int" where
  "js_trunc x = (if 0 \<le> x then \<lfloor>x\<rfloor> else \<lceil>x\<rceil>)"

fun f32_times :: "f32 \<Rightarrow> real \<Rightarrow> f32" where
  "f32_times (Num x) k = Num (x * k)"
| "f32_times NaN k = NaN"

fun toInt16 :: "f32 \<Rightarrow> int16" where
  "toInt16 (Num x) = word_of_int (js_trunc x)"
| "toInt16 NaN = 0"

record blob =
  data :: string
  mimeType :: string

definition createBlob :: "platform \<Rightarrow> f32 list \<Rightarrow> blob" where
  "createBlob p samples =
     (let int16 = map (\<lambda>x. toInt16 (f32_times x 32768)) samples
      in \<lparr>data = encode p (concat (map int16_bytes int16)),
          mimeType = ''audio/pcm;rate=16000''\<rparr>)"

subsection \<open>Decoding: \<^verbatim>\<open>decodeAudioData\<close>\<close>

datatype error = RangeError | NotSupportedError | TypeError | URIError

record audioBuffer =
  sampleRate :: nat
  getChannelData :: "f32 list list"

definition duration :: "audioBuffer \<Rightarrow> real" where
  \<comment> \<open>\<^verbatim>\<open>AudioBuffer.duration\<close>: the number of sample frames over the sample rate; a buffer
      has at least one channel, and all its channels have the same length\<close>
  "duration b =
     (case getChannelData b of
        [] \<Rightarrow> 0
      | channel # _ \<Rightarrow> real (length channel) / real (sampleRate b))"

text \<open>
  \<^verbatim>\<open>ctx.createBuffer(numberOfChannels, length, sampleRate)\<close> of the Web Audio API: the
  length argument is converted to an unsigned integer by dropping its fraction (done by
  the caller below), the call raises \<^verbatim>\<open>NotSupportedError\<close> when the channel count or the
  length is zero, and the buffer it returns is filled with zeros. The upper limits of the
  interface (on the channel count and the sample rate) are not modelled; the application
  always asks for one channel at 24000 Hz.
\<close>

definition createBuffer :: "nat \<Rightarrow> nat \<Rightarrow> nat \<Rightarrow> error + audioBuffer" where
  "createBuffer numberOfChannels len rate =
     (if numberOfChannels = 0 \<or> len = 0 then Inl NotSupportedError
      else Inr \<lparr>sampleRate = rate,
                getChannelData = replicate numberOfChannels (replicate len (Num 0))\<rparr>)"

definition int16_sample :: "int16 list \<Rightarrow> nat \<Rightarrow> f32" where
  \<comment> \<open>\<^verbatim>\<open>dataInt16[k] / 32768.0\<close>; reading past the end gives \<^verbatim>\<open>undefined\<close>, and the quotient NaN\<close>
  "int16_sample dataInt16 k =
     (if k < length dataInt16 then Num (real_of_int (sint (dataInt16 ! k)) / 32768) else NaN)"

text \<open>
  The inner loop \<^verbatim>\<open>for (let i = 0; i < frameCount; i++) channelData[i] = ...\<close>, where
  \<^verbatim>\<open>frameCount = dataInt16.length / numChannels\<close> is a quotient of numbers, not of
  integers: \<open>i < frameCount\<close> is \<open>i * numChannels < length dataInt16\<close>. A write past the
  end of a \<^verbatim>\<open>Float32Array\<close> is ignored, as \<open>xs[i := v]\<close> is.
\<close>

function fill_channel :: "int16 list \<Rightarrow> nat \<Rightarrow> nat \<Rightarrow> nat \<Rightarrow> f32 list \<Rightarrow> f32 list" where
  "fill_channel dataInt16 numChannels channel i channelData =
     (if 0 < numChannels \<and> i * numChannels < length dataInt16
      then fill_channel dataInt16 numChannels channel (Suc i)
             (channelData[i := int16_sample dataInt16 (i * numChannels + channel)])
      else channelData)"
  by pat_completeness auto
termination
  by (relation "measure (\<lambda>(dataInt16, numChannels, channel, i, channelData).
                    length dataInt16 - i * numChannels)") auto

declare fill_channel.simps [simp del]

definition decodeAudioData :: "byte list \<Rightarrow> nat \<Rightarrow> nat \<Rightarrow> error + audioBuffer" where
  "decodeAudioData bytes rate numChannels =
     (if odd (length bytes) then Inl RangeError
      else
        let dataInt16 = int16_view bytes
        in case createBuffer numChannels (length dataInt16 div numChannels) rate of
             Inl e \<Rightarrow> Inl e
           | Inr buffer \<Rightarrow>
               Inr (buffer\<lparr>getChannelData :=
                      map (\<lambda>channel. fill_channel dataInt16 numChannels channel 0
                                       (getChannelData buffer ! channel))
                          [0..<numChannels]\<rparr>))"

text \<open>
  The first branch is the constructor \<^verbatim>\<open>new Int16Array(data.buffer)\<close>: it raises
  \<^verbatim>\<open>RangeError\<close> when the byte length of the buffer is not a multiple of the element
  size 2. The function is \<^verbatim>\<open>async\<close>, so an error is a rejected promise. The argument
  \<open>bytes\<close> is the content of \<^verbatim>\<open>data.buffer\<close>; the application passes the array that
  \<^verbatim>\<open>decode\<close> returns, which covers its whole buffer.
\<close>

subsection \<open>A reference platform: standard base64\<close>

text \<open>
  An instance of the two browser functions, for worked examples: base64 with the standard
  alphabet and \<open>=\<close> padding, as \<^verbatim>\<open>btoa\<close> produces it. \<open>b64_dec\<close> decodes what
  \<open>b64_enc\<close> produces; on other text it is only some total function (the browser's
  \<^verbatim>\<open>atob\<close> raises or decodes leniently there), and nothing below depends on it.
\<close>

definition b64_alphabet :: string where
  "b64_alphabet = ''ABCDEFGHIJKLMNOPQRSTUVWXYZabcdefghijklmnopqrstuvwxyz0123456789+/''"

definition b64_char :: "nat \<Rightarrow> char" where
  "b64_char n = b64_alphabet ! n"

definition b64_index :: "char \<Rightarrow> nat" where
  "b64_index c = length (takeWhile (\<lambda>x. x \<noteq> c) b64_alphabet)"

fun b64_enc :: "nat list \<Rightarrow> string" where
  "b64_enc (a # b # c # r) =
     [b64_char (a div 4), b64_char (a mod 4 * 16 + b div 16),
      b64_char (b mod 16 * 4 + c div 64), b64_char (c mod 64)] @ b64_enc r"
| "b64_enc [a, b] =
     [b64_char (a div 4), b64_char (a mod 4 * 16 + b div 16), b64_char (b mod 16 * 4), CHR ''='']"
| "b64_enc [a] = [b64_char (a div 4), b64_char (a mod 4 * 16), CHR ''='', CHR ''='']"
| "b64_enc [] = []"

fun b64_dec :: "string \<Rightarrow> nat list" where
  "b64_dec (w # x # y # z # r) =
     (let i = b64_index w; j = b64_index x; k = b64_index y; l = b64_index z
      in if y = CHR ''='' then [i * 4 + j div 16]
         else if z = CHR ''='' then [i * 4 + j div 16, j mod 16 * 16 + k div 4]
         else [i * 4 + j div 16, j mod 16 * 16 + k div 4, k mod 4 * 64 + l] @ b64_dec r)"
| "b64_dec _ = []"

definition base64 :: platform where
  "base64 = \<lparr>btoa = (\<lambda>s. b64_enc (map of_char s)), atob = (\<lambda>s. map char_of (b64_dec s))\<rparr>"

section \<open>Face: resolving an expression and drawing it\<close>

text \<open>
  \<^verbatim>\<open>EmoFace\<close>, \<^verbatim>\<open>EmoEye\<close> and \<^verbatim>\<open>EmoMouth\<close> of the first variant (the second variant's
  \<^verbatim>\<open>EmoFace\<close> resolves in the same way). Only what decides the eye and mouth expressions and
  their shapes is modelled; colours, glow and the head tilt are left out.

  The custom registry is a plain JavaScript object used as a dictionary (\<^verbatim>\<open>{}\<close>, the
  result of \<^verbatim>\<open>JSON.parse\<close>, or an object literal), given here by the map from its own
  keys to the stored entries. The lookup \<^verbatim>\<open>customMap[expression]\<close> finds an own key
  first and otherwise whatever the object inherits from \<^verbatim>\<open>Object.prototype\<close>: for the
  names of that object's members it returns a function or an object, which counts as true
  in a condition and whose \<^verbatim>\<open>eyeBase\<close> and \<^verbatim>\<open>mouthBase\<close> are \<^verbatim>\<open>undefined\<close>. An
  expression handed on to the eye and mouth components is therefore a string or
  \<^verbatim>\<open>undefined\<close> (\<open>None\<close>).
\<close>

datatype status = Idle | Listening | Speaking | Thinking

record customExpression =
  name :: string
  eyeBase :: string
  mouthBase :: string

definition base_moods :: "string list" where
  \<comment> \<open>the type \<^verbatim>\<open>Expression\<close>, listed again as \<^verbatim>\<open>moodNames\<close> and \<^verbatim>\<open>bases\<close>\<close>
  "base_moods = [''neutral'', ''happy'', ''surprised'', ''angry'', ''curious'', ''sleepy'',
     ''wink'', ''skeptical'', ''sad'', ''excited'', ''thinking'', ''annoyed'', ''thoughtful'',
     ''yawn'', ''distracted'']"

definition object_prototype_keys :: "string list" where
  \<comment> \<open>the property names of \<^verbatim>\<open>Object.prototype\<close> in a browser\<close>
  "object_prototype_keys = [''constructor'', ''__proto__'', ''hasOwnProperty'',
     ''isPrototypeOf'', ''propertyIsEnumerable'', ''toLocaleString'', ''toString'', ''valueOf'',
     ''__defineGetter__'', ''__defineSetter__'', ''__lookupGetter__'', ''__lookupSetter__'']"

datatype property = Own customExpression | Inherited | Missing

definition get_property :: "(string \<rightharpoonup> customExpression) \<Rightarrow> string \<Rightarrow> property" where
  \<comment> \<open>\<^verbatim>\<open>customMap[key]\<close>\<close>
  "get_property customMap key =
     (case customMap key of
        Some c \<Rightarrow> Own c
      | None \<Rightarrow> if key \<in> set object_prototype_keys then Inherited else Missing)"

definition EmoFace ::
  "(string \<rightharpoonup> customExpression) \<Rightarrow> string \<Rightarrow> status \<Rightarrow> int \<Rightarrow> string option \<times> string option" where
  \<comment> \<open>the pair \<^verbatim>\<open>(eyeExp, mouthExp)\<close> handed to \<^verbatim>\<open>EmoEye\<close> and \<^verbatim>\<open>EmoMouth\<close>\<close>
  "EmoFace customMap expr st bored =
     (let isCustom = get_property customMap expr;
          eyeExp = (case isCustom of
                      Own c \<Rightarrow> Some (eyeBase c) | Inherited \<Rightarrow> None | Missing \<Rightarrow> Some expr);
          mouthExp = (case isCustom of
                        Own c \<Rightarrow> Some (mouthBase c) | Inherited \<Rightarrow> None | Missing \<Rightarrow> Some expr);
          eyeExp = (if expr = ''neutral'' \<and> st = Idle
                    then (if bored > 80 then Some ''sleepy''
                          else if bored > 40 then Some ''distracted'' else eyeExp)
                    else eyeExp)
      in (eyeExp, mouthExp))"

record eyeShape =
  eye_width :: int
  eye_height :: int
  eye_borderRadius :: string
  eye_rotate :: int
  eye_scaleY :: real
  eye_translateY :: int

definition eye_switch :: "string \<Rightarrow> bool \<Rightarrow> eyeShape \<Rightarrow> eyeShape" where
  \<comment> \<open>\<^verbatim>\<open>switch (activeExpression)\<close> in \<^verbatim>\<open>EmoEye\<close>; there is no \<^verbatim>\<open>default\<close> case\<close>
  "eye_switch activeExpression isLeft e =
     (if activeExpression = ''happy'' then
        e\<lparr>eye_rotate := (if isLeft then 15 else - 15),
          eye_borderRadius := ''40px 40px 18px 18px'', eye_translateY := - 6\<rparr>
      else if activeExpression = ''surprised'' then
        e\<lparr>eye_width := 82, eye_height := 82, eye_borderRadius := ''50%''\<rparr>
      else if activeExpression = ''angry'' then
        e\<lparr>eye_rotate := (if isLeft then - 25 else 25), eye_height := 40,
          eye_borderRadius := ''10px 10px 45px 45px''\<rparr>
      else if activeExpression = ''sleepy'' then
        e\<lparr>eye_scaleY := 0.22, eye_height := 28, eye_borderRadius := ''50%''\<rparr>
      else if activeExpression = ''curious'' then
        e\<lparr>eye_rotate := (if isLeft then - 12 else 10),
          eye_height := (if isLeft then 60 else 78)\<rparr>
      else if activeExpression = ''wink'' then
        (if \<not> isLeft then e\<lparr>eye_scaleY := 0.05\<rparr>
         else e\<lparr>eye_rotate := 15, eye_borderRadius := ''42px 42px 18px 18px''\<rparr>)
      else if activeExpression = ''skeptical'' then
        e\<lparr>eye_rotate := (if isLeft then - 18 else 0),
          eye_translateY := (if isLeft then - 14 else 0),
          eye_height := (if isLeft then 78 else 42)\<rparr>
      else if activeExpression = ''sad'' then
        e\<lparr>eye_rotate := (if isLeft then - 22 else 22),
          eye_borderRadius := ''18px 18px 42px 42px'', eye_translateY := 14\<rparr>
      else if activeExpression = ''excited'' then
        e\<lparr>eye_width := 88, eye_height := 62, eye_borderRadius := ''28px''\<rparr>
      else if activeExpression = ''thinking'' then
        e\<lparr>eye_rotate := (if isLeft then 12 else - 12), eye_height := 48, eye_width := 78\<rparr>
      else if activeExpression = ''annoyed'' then
        e\<lparr>eye_height := 38, eye_borderRadius := ''12px 12px 42px 42px'',
          eye_rotate := (if isLeft then - 12 else 12)\<rparr>
      else if activeExpression = ''thoughtful'' then
        e\<lparr>eye_rotate := (if isLeft then - 22 else - 12),
          eye_height := (if isLeft then 68 else 58),
          eye_borderRadius := ''45% 45% 22% 22%'', eye_translateY := - 10\<rparr>
      else if activeExpression = ''yawn'' then
        e\<lparr>eye_scaleY := 0.28, eye_translateY := - 12\<rparr>
      else if activeExpression = ''distracted'' then
        e\<lparr>eye_rotate := (if isLeft then 6 else 18), eye_translateY := 6\<rparr>
      else e)"

definition EmoEye :: "status \<Rightarrow> string option \<Rightarrow> bool \<Rightarrow> bool \<Rightarrow> bool \<Rightarrow> eyeShape" where
  "EmoEye state expr isLeft isStartled blink =
     (let e0 = \<lparr>eye_width = 72, eye_height = 72, eye_borderRadius = ''22px'', eye_rotate = 0,
                eye_scaleY = (if blink \<and> \<not> isStartled then 0.05 else 1), eye_translateY = 0\<rparr>;
          activeExpression = (if isStartled then Some ''surprised'' else expr);
          isListening = (state = Listening);
          activeExpression = (if isListening \<and> activeExpression = Some ''neutral''
                              then Some ''curious'' else activeExpression);
          activeExpression = (if state = Thinking \<and> activeExpression = Some ''neutral''
                              then Some ''thinking'' else activeExpression);
          e = (case activeExpression of
                 Some a \<Rightarrow> eye_switch a isLeft e0
               | None \<Rightarrow> e0)
      in if isListening then e\<lparr>eye_width := eye_width e + 10, eye_height := eye_height e + 4\<rparr>
         else e)"

record mouthShape =
  mouth_width :: real
  mouth_height :: real
  mouth_borderRadius :: string
  mouth_rotate :: int

definition mouth_switch :: "string \<Rightarrow> mouthShape \<Rightarrow> mouthShape" where
  \<comment> \<open>\<^verbatim>\<open>switch (activeExpression)\<close> in \<^verbatim>\<open>EmoMouth\<close>; there is no \<^verbatim>\<open>default\<close> case\<close>
  "mouth_switch activeExpression m =
     (if activeExpression = ''happy'' then
        m\<lparr>mouth_width := 52, mouth_height := 16, mouth_borderRadius := ''0 0 32px 32px''\<rparr>
      else if activeExpression = ''surprised'' then
        m\<lparr>mouth_width := 28, mouth_height := 28, mouth_borderRadius := ''50%''\<rparr>
      else if activeExpression = ''angry'' then
        m\<lparr>mouth_width := 38, mouth_height := 6, mouth_rotate := - 6\<rparr>
      else if activeExpression = ''sad'' then
        m\<lparr>mouth_width := 48, mouth_height := 13, mouth_borderRadius := ''28px 28px 0 0''\<rparr>
      else if activeExpression = ''skeptical'' then
        m\<lparr>mouth_width := 32, mouth_height := 7, mouth_rotate := 18\<rparr>
      else if activeExpression = ''excited'' then
        m\<lparr>mouth_width := 65, mouth_height := 22, mouth_borderRadius := ''12px 12px 42px 42px''\<rparr>
      else if activeExpression = ''sleepy'' then
        m\<lparr>mouth_width := 18, mouth_height := 18, mouth_borderRadius := ''50%''\<rparr>
      else if activeExpression = ''wink'' then
        m\<lparr>mouth_width := 42, mouth_height := 12, mouth_borderRadius := ''0 0 22px 22px'',
          mouth_rotate := - 6\<rparr>
      else if activeExpression = ''annoyed'' then
        m\<lparr>mouth_width := 32, mouth_height := 4\<rparr>
      else if activeExpression = ''thoughtful'' then
        m\<lparr>mouth_width := 18, mouth_height := 18, mouth_borderRadius := ''50%''\<rparr>
      else if activeExpression = ''yawn'' then
        m\<lparr>mouth_width := 20, mouth_height := 35, mouth_borderRadius := ''50%''\<rparr>
      else m)"

definition EmoMouth :: "status \<Rightarrow> real \<Rightarrow> string option \<Rightarrow> bool \<Rightarrow> mouthShape" where
  "EmoMouth state intensity expr isStartled =
     (let m0 = \<lparr>mouth_width = 38, mouth_height = 8, mouth_borderRadius = ''7px'',
                mouth_rotate = 0\<rparr>;
          activeExpression = (if isStartled then Some ''surprised'' else expr)
      in if state = Speaking then
           m0\<lparr>mouth_width := 22 + intensity * 28, mouth_height := 8 + intensity * 48,
              mouth_borderRadius := (if intensity > 0.3 then ''50%'' else ''15px'')\<rparr>
         else (case activeExpression of
                 Some a \<Rightarrow> mouth_switch a m0
               | None \<Rightarrow> m0))"

section \<open>Application state\<close>

text \<open>
  The state of \<^verbatim>\<open>App\<close> in the second variant, as far as the audio scheduler, the voice
  gate, the tool dispatcher and the boredom counter use it: React state (\<open>status\<close>,
  \<open>expression\<close>, \<open>boredom\<close>, ...) and refs (\<open>statusRef\<close>, \<open>nextStartTimeRef\<close>, ...).
  The first variant has the same scheduler and counter; its tool catalogue is modelled
  separately below, and its microphone callback, which sends every frame and has no gate,
  is not modelled.

  \<^item> A call \<^verbatim>\<open>setStatus(v)\<close> is an assignment to \<open>status\<close>: the field holds the value the
    next render will show. The ref \<open>statusRef\<close>, which the callbacks read, changes only
    when the status effect runs (\<open>statusEffect\<close> below).
  \<^item> An \<^verbatim>\<open>AudioBufferSourceNode\<close> is identified by the number of sources created before
    it; \<open>sourcesRef\<close> lists the members of the \<^verbatim>\<open>Set\<close> in insertion order, which is the
    order a \<^verbatim>\<open>for ... of\<close> loop visits them.
  \<^item> \<open>sessionRef\<close> tells whether \<^verbatim>\<open>sessionRef.current\<close> holds the session (it is
    \<^verbatim>\<open>null\<close> until \<^verbatim>\<open>await sessionPromise\<close> returns).
  \<^item> What the application does to the audio graph and sends over the session is recorded,
    in order, in \<open>effects\<close>.
  \<^item> Times on the output clock and sample values of a captured frame are reals, and the
    arithmetic on them is exact (floating-point rounding is not modelled).
  Timers (\<^verbatim>\<open>setTimeout\<close>: removing a sticker, resetting the expression) are not modelled.
\<close>

record sticker =
  sticker_icon :: string
  sticker_position :: string
  sticker_id :: nat

record thoughtData =
  thought_type :: string
  thought_value :: string
  thought_timestamp :: "nat option"

record functionCall =
  fc_id :: string
  fc_name :: string
  fc_args :: "string \<rightharpoonup> string"

record functionResponse =
  fr_id :: string
  fr_name :: string
  fr_result :: string

datatype effect =
    SourceStart nat real
  | SourceStop nat
  | SendRealtimeInput blob
  | SendToolResponse functionResponse
  | WindowOpen string

record app =
  status :: status
  expression :: string
  micLevel :: real
  thought :: "thoughtData option"
  memoryBank :: "thoughtData list"
  boredom :: int
  stickers :: "sticker list"
  aiCustomCss :: string
  visionType :: "string option"
  noiseThreshold :: real
  customExpressions :: "string \<rightharpoonup> customExpression"
  statusRef :: status
  nextStartTimeRef :: real
  sourcesRef :: "nat list"
  vadActiveRef :: int
  sessionRef :: bool
  created :: nat
  effects :: "effect list"

definition initial :: app where
  \<comment> \<open>the initial values of \<^verbatim>\<open>useState\<close> and \<^verbatim>\<open>useRef\<close>, with nothing in local storage\<close>
  "initial = \<lparr>status = Idle, expression = ''neutral'', micLevel = 0, thought = None,
     memoryBank = [], boredom = 0, stickers = [], aiCustomCss = [], visionType = None,
     noiseThreshold = 0.015, customExpressions = Map.empty, statusRef = Idle,
     nextStartTimeRef = 0, sourcesRef = [], vadActiveRef = 0, sessionRef = False,
     created = 0, effects = []\<rparr>"

definition setStatus :: "status \<Rightarrow> app \<Rightarrow> app" where
  "setStatus v s = s\<lparr>status := v\<rparr>"

definition setExpression :: "string \<Rightarrow> app \<Rightarrow> app" where
  "setExpression v s = s\<lparr>expression := v\<rparr>"

definition emit :: "effect \<Rightarrow> app \<Rightarrow> app" where
  "emit e s = s\<lparr>effects := effects s @ [e]\<rparr>"

subsection \<open>Status effect and boredom timer\<close>

text \<open>
  \<^verbatim>\<open>useEffect(() => { statusRef.current = status; if (status !== 'idle') setBoredom(0); }, [status])\<close>
  runs after a render in which \<open>status\<close> differs from the value of the render before,
  which is the value it stored in \<open>statusRef\<close>.
\<close>

definition statusEffect :: "app \<Rightarrow> app" where
  "statusEffect s =
     (if status s = statusRef s then s
      else (let s1 = s\<lparr>statusRef := status s\<rparr>
            in if status s1 \<noteq> Idle then s1\<lparr>boredom := 0\<rparr> else s1))"

definition boredomInterval :: "app \<Rightarrow> app" where
  \<comment> \<open>the callback of \<^verbatim>\<open>setInterval(..., 3500)\<close>\<close>
  "boredomInterval s =
     (if statusRef s = Idle then s\<lparr>boredom := min 100 (boredom s + 1)\<rparr> else s)"

text \<open>The invariant of the boredom counter, on the status the callbacks read.\<close>

definition boredom_inv :: "app \<Rightarrow> bool" where
  "boredom_inv s \<longleftrightarrow>
     0 \<le> boredom s \<and> boredom s \<le> 100 \<and> (statusRef s \<noteq> Idle \<longrightarrow> boredom s = 0)"

subsection \<open>Audio output scheduler\<close>

definition stopAllAudio :: "app \<Rightarrow> app" where
  "stopAllAudio s =
     (let s1 = s\<lparr>effects := effects s @ map SourceStop (sourcesRef s)\<rparr>;
          s2 = s1\<lparr>sourcesRef := []\<rparr>;
          s3 = s2\<lparr>nextStartTimeRef := 0\<rparr>
      in setStatus Idle s3)"

definition playBuffer :: "real \<Rightarrow> audioBuffer \<Rightarrow> app \<Rightarrow> app" where
  \<comment> \<open>the part of \<^verbatim>\<open>onmessage\<close> after \<^verbatim>\<open>await decodeAudioData(...)\<close>; the first argument
      is \<^verbatim>\<open>outCtx.currentTime\<close>\<close>
  "playBuffer currentTime buf s =
     (let s1 = setStatus Speaking s;
          s2 = s1\<lparr>nextStartTimeRef := max (nextStartTimeRef s1) currentTime\<rparr>;
          src = created s2;
          s3 = s2\<lparr>created := Suc src\<rparr>;
          s4 = emit (SourceStart src (nextStartTimeRef s3)) s3;
          s5 = s4\<lparr>nextStartTimeRef := nextStartTimeRef s4 + duration buf\<rparr>
      in s5\<lparr>sourcesRef := sourcesRef s5 @ [src]\<rparr>)"

definition onended :: "nat \<Rightarrow> app \<Rightarrow> app" where
  \<comment> \<open>\<^verbatim>\<open>src.onended\<close>\<close>
  "onended src s =
     (let s1 = s\<lparr>sourcesRef := removeAll src (sourcesRef s)\<rparr>
      in if length (sourcesRef s1) = 0 then setStatus Idle s1 else s1)"

text \<open>
  A sequence of decoded chunks handed to the scheduler with nothing in between, each with
  the output-clock time read when it is scheduled, and the start times found in the
  recorded effects.
\<close>

fun playBuffers :: "(real \<times> audioBuffer) list \<Rightarrow> app \<Rightarrow> app" where
  "playBuffers [] s = s"
| "playBuffers ((currentTime, buf) # chunks) s = playBuffers chunks (playBuffer currentTime buf s)"

fun startTimes :: "effect list \<Rightarrow> real list" where
  "startTimes [] = []"
| "startTimes (SourceStart src t # es) = t # startTimes es"
| "startTimes (e # es) = startTimes es"

text \<open>
  The specification's \<^verbatim>\<open>enqueue\<close>, written from its words:
  \<^verbatim>\<open>startAt = max(nextStartTime, outputClockNow())\<close>, then
  \<^verbatim>\<open>nextStartTime = startAt + chunk.duration\<close>. It gives the start times of a sequence
  of chunks from the value of \<^verbatim>\<open>nextStartTime\<close> before the first.
\<close>

fun spec_enqueue :: "real \<Rightarrow> (real \<times> audioBuffer) list \<Rightarrow> real list" where
  "spec_enqueue nextStartTime [] = []"
| "spec_enqueue nextStartTime ((outputClockNow, chunk) # chunks) =
     (let startAt = max nextStartTime outputClockNow
      in startAt # spec_enqueue (startAt + duration chunk) chunks)"

subsection \<open>Voice activity gate\<close>

definition volume :: "real list \<Rightarrow> real" where
  \<comment> \<open>\<^verbatim>\<open>inputData.reduce((a, b) => a + Math.abs(b), 0) / inputData.length\<close>\<close>
  "volume inputData = (\<Sum>b\<leftarrow>inputData. \<bar>b\<bar>) / real (length inputData)"

definition sendRealtimeInput :: "blob \<Rightarrow> app \<Rightarrow> app" where
  \<comment> \<open>\<^verbatim>\<open>sessionRef.current?.sendRealtimeInput({ media })\<close>\<close>
  "sendRealtimeInput media s = (if sessionRef s then emit (SendRealtimeInput media) s else s)"

text \<open>
  \<^verbatim>\<open>scriptProcessor.onaudioprocess\<close>. For an empty frame the quotient in \<open>volume\<close> is NaN
  in JavaScript and no comparison with it holds, hence the test \<open>inputData \<noteq> []\<close>; the
  script processor always delivers 4096 samples.
\<close>

definition onaudioprocess :: "platform \<Rightarrow> real list \<Rightarrow> app \<Rightarrow> app" where
  "onaudioprocess p inputData s0 =
     (let s = s0\<lparr>micLevel := volume inputData\<rparr>
      in if inputData \<noteq> [] \<and> volume inputData > noiseThreshold s then
           (let s1 = s\<lparr>vadActiveRef := 5\<rparr>;
                s2 = (if statusRef s1 = Speaking then stopAllAudio s1 else s1);
                s3 = (if statusRef s2 = Idle then setStatus Listening s2 else s2)
            in sendRealtimeInput (createBlob p (map Num inputData)) s3)
         else if vadActiveRef s > 0 then
           (let s1 = s\<lparr>vadActiveRef := vadActiveRef s - 1\<rparr>
            in sendRealtimeInput (createBlob p (map Num inputData)) s1)
         else s)"

fun realtimeInputs :: "effect list \<Rightarrow> blob list" where
  "realtimeInputs [] = []"
| "realtimeInputs (SendRealtimeInput media # es) = media # realtimeInputs es"
| "realtimeInputs (e # es) = realtimeInputs es"

section \<open>Tool-call dispatcher and inbound messages\<close>

text \<open>
  What the handlers observe of the browser while one message is handled: the output
  clock, the wall clock, the outcome of \<^verbatim>\<open>new Function(code)()\<close> on caller-supplied code,
  the outcome of asking for the camera or the screen (\<open>None\<close> when granted, otherwise the
  error message that \<^verbatim>\<open>startVision\<close> reports from its \<^verbatim>\<open>catch\<close> block), and the builtin
  \<^verbatim>\<open>encodeURIComponent\<close>, which raises \<^verbatim>\<open>URIError\<close> (\<open>None\<close>) on a string with a lone
  surrogate.

  Running the code either returns (its result as \<^verbatim>\<open>String\<close> renders it, \<open>None\<close> for
  \<^verbatim>\<open>undefined\<close>), or throws a value whose \<^verbatim>\<open>message\<close> property can be read (the text that
  the template \<^verbatim>\<open>`Error: ${err.message}`\<close> makes of it), or throws \<^verbatim>\<open>null\<close> or
  \<^verbatim>\<open>undefined\<close>, on which reading \<^verbatim>\<open>err.message\<close> raises \<^verbatim>\<open>TypeError\<close> inside the
  \<^verbatim>\<open>catch\<close> block. Code that never returns and code that writes the application's state
  are outside the model.
\<close>

datatype outcome = Returns "string option" | Throws string | ThrowsNullish

record env =
  currentTime :: real
  dateNow :: nat
  runFunction :: "string \<Rightarrow> outcome"
  getMedia :: "string \<Rightarrow> string option"
  encodeURIComponent :: "string \<Rightarrow> string option"

definition arg :: "functionCall \<Rightarrow> string \<Rightarrow> string" where
  \<comment> \<open>\<^verbatim>\<open>fc.args.k as string\<close>; an absent argument is \<^verbatim>\<open>undefined\<close>, written here as the text
      \<open>undefined\<close>, which is what a lookup or a comparison makes of it\<close>
  "arg fc k = (case fc_args fc k of Some v \<Rightarrow> v | None \<Rightarrow> ''undefined'')"

definition sendToolResponse :: "functionCall \<Rightarrow> string \<Rightarrow> app \<Rightarrow> app" where
  \<comment> \<open>\<^verbatim>\<open>sessionRef.current?.sendToolResponse({ functionResponses: { id, name, response: { result } } })\<close>\<close>
  "sendToolResponse fc result s =
     (if sessionRef s
      then emit (SendToolResponse \<lparr>fr_id = fc_id fc, fr_name = fc_name fc, fr_result = result\<rparr>) s
      else s)"

definition stopVision :: "app \<Rightarrow> app" where
  "stopVision s = s\<lparr>visionType := None\<rparr>"

definition startVision :: "env \<Rightarrow> string \<Rightarrow> app \<Rightarrow> app \<times> bool \<times> string" where
  "startVision env ty s =
     (let s1 = stopVision s
      in case getMedia env ty of
           None \<Rightarrow> (s1\<lparr>visionType := Some ty\<rparr>, True, ''Vision Activated: '' @ ty)
         | Some errorMsg \<Rightarrow> (s1, False, errorMsg))"

text \<open>
  One iteration of \<^verbatim>\<open>for (const fc of message.toolCall.functionCalls)\<close> in the second
  variant. A branch ends in one of three ways: it falls through to the reply \<^verbatim>\<open>"ok"\<close> at
  the end of the loop body; it has sent its own reply and says \<^verbatim>\<open>continue\<close>; or an
  exception leaves the loop body, and with it the loop and the handler. The second
  component of the result is that exception.
\<close>

datatype flow = FallThrough | Continue | Raise error

definition toolCall_step :: "env \<Rightarrow> functionCall \<Rightarrow> app \<Rightarrow> app \<times> error option" where
  "toolCall_step env fc s =
     (let (s', fl) =
        (if fc_name fc = ''set_expression'' then
           (setExpression (arg fc ''expression'') s, FallThrough)
         else if fc_name fc = ''set_sticker'' then
           (let ns = \<lparr>sticker_icon = arg fc ''icon'',
                      sticker_position = (case fc_args fc ''position'' of
                                            Some v \<Rightarrow> if v = [] then ''top-right'' else v
                                          | None \<Rightarrow> ''top-right''),
                      sticker_id = dateNow env\<rparr>
            in (s\<lparr>stickers := stickers s @ [ns]\<rparr>, FallThrough))
         else if fc_name fc = ''display_thought'' then
           (let nt = \<lparr>thought_type = arg fc ''type'', thought_value = arg fc ''content'',
                      thought_timestamp = Some (dateNow env)\<rparr>;
                s1 = s\<lparr>thought := Some nt\<rparr>
            in (if thought_type nt = ''image'' \<or> thought_type nt = ''generated''
                then s1\<lparr>memoryBank := nt # memoryBank s1\<rparr> else s1, FallThrough))
         else if fc_name fc = ''execute_javascript'' then
           (case runFunction env (arg fc ''code'') of
              Returns result \<Rightarrow>
                (sendToolResponse fc
                   (case result of Some r \<Rightarrow> r | None \<Rightarrow> ''Executed successfully'') s,
                 Continue)
            | Throws msg \<Rightarrow> (sendToolResponse fc (''Error: '' @ msg) s, Continue)
            | ThrowsNullish \<Rightarrow> (s, Raise TypeError))
         else if fc_name fc = ''update_face_css'' then
           (sendToolResponse fc ''CSS Applied'' (s\<lparr>aiCustomCss := arg fc ''css''\<rparr>), Continue)
         else if fc_name fc = ''toggle_vision'' then
           (if arg fc ''type'' = ''none''
            then (sendToolResponse fc ''Vision Off'' (stopVision s), Continue)
            else (let (s1, success, msg) = startVision env (arg fc ''type'') s
                  in (sendToolResponse fc msg s1, Continue)))
         else (s, FallThrough))
      in case fl of
           FallThrough \<Rightarrow> (sendToolResponse fc ''ok'' s', None)
         | Continue \<Rightarrow> (s', None)
         | Raise e \<Rightarrow> (s', Some e))"

definition toolCall_body :: "env \<Rightarrow> functionCall \<Rightarrow> app \<Rightarrow> app" where
  \<comment> \<open>the state one iteration leaves\<close>
  "toolCall_body env fc s = fst (toolCall_step env fc s)"

fun toolCall_loop :: "env \<Rightarrow> functionCall list \<Rightarrow> app \<Rightarrow> app \<times> error option" where
  "toolCall_loop env [] s = (s, None)"
| "toolCall_loop env (fc # fcs) s =
     (case toolCall_step env fc s of
        (s', Some e) \<Rightarrow> (s', Some e)
      | (s', None) \<Rightarrow> toolCall_loop env fcs s')"

text \<open>The names under \<^verbatim>\<open>functionDeclarations\<close> in the second variant's session configuration.\<close>

definition catalog :: "string list" where
  "catalog = [''set_expression'', ''set_sticker'', ''display_thought'', ''execute_javascript'',
     ''update_face_css'', ''toggle_vision'']"

subsection \<open>The first variant's catalogue\<close>

text \<open>
  The first variant's loop has no \<^verbatim>\<open>try\<close>: an exception raised in
  \<^verbatim>\<open>handleBrowserAction\<close> (by \<^verbatim>\<open>encodeURIComponent\<close>, before the window is opened) leaves
  the loop and the handler.
\<close>

definition catalog_v1 :: "string list" where
  "catalog_v1 = [''set_expression'', ''display_thought'', ''open_browser_action'']"

definition handleBrowserAction ::
  "env \<Rightarrow> string \<Rightarrow> string option \<Rightarrow> app \<Rightarrow> app \<times> (error + string)" where
  "handleBrowserAction env action query s =
     (if action = ''whatsapp'' then
        (emit (WindowOpen ''https://web.whatsapp.com/'') s, Inr (''Successfully opened '' @ action))
      else if action = ''gmail'' then
        (emit (WindowOpen ''https://mail.google.com/'') s, Inr (''Successfully opened '' @ action))
      else if action = ''search'' then
        (case encodeURIComponent env (case query of Some q \<Rightarrow> q | None \<Rightarrow> []) of
           None \<Rightarrow> (s, Inl URIError)
         | Some q \<Rightarrow>
             (emit (WindowOpen (''https://www.google.com/search?q='' @ q)) s,
              Inr (''Successfully opened '' @ action)))
      else (s, Inr ''Action not supported''))"

definition sendToolResponse_v1 :: "functionCall \<Rightarrow> string \<Rightarrow> app \<Rightarrow> app" where
  \<comment> \<open>\<^verbatim>\<open>sessionPromise.then(s => s.sendToolResponse(...))\<close>: the handler only runs on a
      session that has opened, so the promise is fulfilled\<close>
  "sendToolResponse_v1 fc result s =
     emit (SendToolResponse \<lparr>fr_id = fc_id fc, fr_name = fc_name fc, fr_result = result\<rparr>) s"

definition toolCall_step_v1 :: "env \<Rightarrow> functionCall \<Rightarrow> app \<Rightarrow> app \<times> error option" where
  "toolCall_step_v1 env fc s =
     (let (s', fl) =
        (if fc_name fc = ''set_expression'' then
           (setExpression (arg fc ''expression'') s, FallThrough)
         else if fc_name fc = ''display_thought'' then
           (s\<lparr>thought := Some \<lparr>thought_type = arg fc ''type'', thought_value = arg fc ''content'',
                                 thought_timestamp = None\<rparr>\<rparr>, FallThrough)
         else if fc_name fc = ''open_browser_action'' then
           (case handleBrowserAction env (arg fc ''action'') (fc_args fc ''query'') s of
              (s1, Inl e) \<Rightarrow> (s1, Raise e)
            | (s1, Inr result) \<Rightarrow> (sendToolResponse_v1 fc result s1, Continue))
         else (s, FallThrough))
      in case fl of
           FallThrough \<Rightarrow> (sendToolResponse_v1 fc ''ok'' s', None)
         | Continue \<Rightarrow> (s', None)
         | Raise e \<Rightarrow> (s', Some e))"

definition toolCall_body_v1 :: "env \<Rightarrow> functionCall \<Rightarrow> app \<Rightarrow> app" where
  "toolCall_body_v1 env fc s = fst (toolCall_step_v1 env fc s)"

fun toolCall_loop_v1 :: "env \<Rightarrow> functionCall list \<Rightarrow> app \<Rightarrow> app \<times> error option" where
  "toolCall_loop_v1 env [] s = (s, None)"
| "toolCall_loop_v1 env (fc # fcs) s =
     (case toolCall_step_v1 env fc s of
        (s', Some e) \<Rightarrow> (s', Some e)
      | (s', None) \<Rightarrow> toolCall_loop_v1 env fcs s')"

fun toolResponses :: "effect list \<Rightarrow> functionResponse list" where
  "toolResponses [] = []"
| "toolResponses (SendToolResponse r # es) = r # toolResponses es"
| "toolResponses (e # es) = toolResponses es"

subsection \<open>\<^verbatim>\<open>onmessage\<close> and the other callbacks\<close>

text \<open>
  An inbound message, as far as the handler looks at it: the tool calls, the base64 text
  \<^verbatim>\<open>serverContent.modelTurn.parts[0]?.inlineData?.data\<close> and the \<^verbatim>\<open>interrupted\<close> flag.
  Transcription fragments only feed the caption refs and are left out. The handler is
  \<^verbatim>\<open>async\<close>: when the tool loop or the decoder raises, the handler stops there (second
  component of the result) and what it did before stays done.
\<close>

record message =
  toolCall :: "functionCall list option"
  modelTurn :: "string option"
  interrupted :: bool

definition onmessage :: "platform \<Rightarrow> env \<Rightarrow> message \<Rightarrow> app \<Rightarrow> app \<times> error option" where
  "onmessage p env msg s =
     (case (case toolCall msg of Some fcs \<Rightarrow> toolCall_loop env fcs s | None \<Rightarrow> (s, None)) of
        (s1, Some e) \<Rightarrow> (s1, Some e)
      | (s1, None) \<Rightarrow>
          (let r = (case modelTurn msg of
                      None \<Rightarrow> Inr s1
                    | Some b64 \<Rightarrow>
                        if b64 = [] then Inr s1
                        else (case decodeAudioData (decode p b64) 24000 1 of
                                Inl e \<Rightarrow> Inl e
                              | Inr buf \<Rightarrow> Inr (playBuffer (currentTime env) buf s1)))
           in case r of
                Inl e \<Rightarrow> (s1, Some e)
              | Inr s2 \<Rightarrow>
                  (if interrupted msg then setExpression ''surprised'' (stopAllAudio s2) else s2,
                   None)))"

definition onclose :: "app \<Rightarrow> app" where
  "onclose s = stopVision (setStatus Idle s)"

text \<open>
  The callbacks as events of one event loop. \<open>SessionReady\<close> is the assignment
  \<^verbatim>\<open>sessionRef.current = await sessionPromise\<close>. User actions (touching the face, the mood
  editor, the threshold slider) and \<^verbatim>\<open>onerror\<close> do not write \<open>status\<close>, \<open>boredom\<close> or
  the scheduler's refs and are not events here.
\<close>

datatype event =
    AudioProcess "real list"
  | Message env message
  | Ended nat
  | BoredomInterval
  | StatusEffect
  | Close
  | SessionReady

fun step :: "platform \<Rightarrow> event \<Rightarrow> app \<Rightarrow> app" where
  "step p (AudioProcess inputData) s = onaudioprocess p inputData s"
| "step p (Message env msg) s = fst (onmessage p env msg s)"
| "step p (Ended src) s = onended src s"
| "step p BoredomInterval s = boredomInterval s"
| "step p StatusEffect s = statusEffect s"
| "step p Close s = onclose s"
| "step p SessionReady s = s\<lparr>sessionRef := True\<rparr>"

fun run :: "platform \<Rightarrow> event list \<Rightarrow> app \<Rightarrow> app" where
  "run p [] s = s"
| "run p (ev # evs) s = run p evs (step p ev s)"

section \<open>Properties of the PCM codec\<close>

lemma bytes_int16_bytes: "int16_view (int16_bytes w @ rest) = w # int16_view rest"
proof -
  have "unat w div 256 < 256" using unsigned_less[of w, where 'a=nat] by simp
  then have "unat w mod 256 + 256 * (unat w div 256 mod 256) = unat w" by simp
  then show ?thesis
    by (simp add: int16_bytes_def bytes_int16_def unat_of_nat)
qed

lemma int16_view_concat: "int16_view (concat (map int16_bytes ws)) = ws"
  by (induction ws) (simp_all add: bytes_int16_bytes)

lemma length_concat_int16_bytes: "length (concat (map int16_bytes ws)) = 2 * length ws"
  by (induction ws) (simp_all add: int16_bytes_def)

lemma byte_mod: "word_of_nat (unat (b::byte) mod 256) = b"
proof -
  have "unat b < 256" using unsigned_less[of b, where 'a=nat] by simp
  then show ?thesis by simp
qed

lemma decode_encode: "(\<And>s. atob p (btoa p s) = s) \<Longrightarrow> decode p (encode p bs) = bs"
  by (simp add: decode_def encode_def o_def byte_mod)

lemma length_fill_channel: "length (fill_channel d n c i cd) = length cd"
proof (induction d n c i cd rule: fill_channel.induct)
  case (1 d n c i cd)
  then show ?case by (subst fill_channel.simps) simp
qed

lemma nth_fill_channel:
  "j < length cd \<Longrightarrow> fill_channel d n c i cd ! j =
     (if 0 < n \<and> i \<le> j \<and> j * n < length d then int16_sample d (j * n + c) else cd ! j)"
proof (induction d n c i cd rule: fill_channel.induct)
  case (1 d n c i cd)
  show ?case
  proof (cases "0 < n \<and> i * n < length d")
    case True
    then have "fill_channel d n c i cd = fill_channel d n c (Suc i) (cd[i := int16_sample d (i * n + c)])"
      by (subst fill_channel.simps) simp
    moreover have "fill_channel d n c (Suc i) (cd[i := int16_sample d (i * n + c)]) ! j =
      (if 0 < n \<and> Suc i \<le> j \<and> j * n < length d then int16_sample d (j * n + c) else cd[i := int16_sample d (i * n + c)] ! j)"
      using "1.IH"[OF True] "1.prems" by simp
    moreover have "i = j \<or> Suc i \<le> j \<or> j < i" by arith
    ultimately show ?thesis using True "1.prems"
      by (auto simp: nth_list_update)
  next
    case False
    then have "fill_channel d n c i cd = cd" by (subst fill_channel.simps) auto
    moreover have "\<not> (0 < n \<and> i \<le> j \<and> j * n < length d)"
      using False by (metis le_trans linorder_not_less mult_le_mono1)
    ultimately show ?thesis by auto
  qed
qed

lemma js_trunc_err: "\<bar>real_of_int (js_trunc y) - y\<bar> < 1"
  unfolding js_trunc_def by (simp; linarith)

lemma js_trunc_range: "- 32768 \<le> y \<Longrightarrow> y < 32768 \<Longrightarrow> - 32768 \<le> js_trunc y \<and> js_trunc y < 32768"
  unfolding js_trunc_def by (simp; linarith)

lemma sint_toInt16: "- 32768 \<le> y \<Longrightarrow> y < 32768 \<Longrightarrow> sint (toInt16 (Num y)) = js_trunc y"
  using js_trunc_range[of y] by (simp add: sint_sbintrunc' signed_take_bit_int_eq_self)

lemma length_int16_view: "length (int16_view bs) = length bs div 2"
  by (induction bs rule: int16_view.induct) simp_all

lemma decode_channel:
  assumes n: "0 < n" and c: "c < n" and L: "L = length d div n"
  shows "fill_channel d n c 0 (replicate L (Num 0)) =
         map (\<lambda>i. Num (real_of_int (sint (d ! (i * n + c))) / 32768)) [0..<L]"
proof (rule nth_equalityI)
  show "length (fill_channel d n c 0 (replicate L (Num 0))) = length (map (\<lambda>i. Num (real_of_int (sint (d ! (i * n + c))) / 32768)) [0..<L])"
    by (simp add: length_fill_channel)
next
  fix j assume "j < length (fill_channel d n c 0 (replicate L (Num 0)))"
  then have j: "j < L" by (simp add: length_fill_channel)
  then have "Suc j \<le> length d div n" using L by simp
  then have "Suc j * n \<le> length d div n * n" by (rule mult_le_mono1)
  also have "\<dots> \<le> length d" by simp
  finally have "Suc j * n \<le> length d" .
  then have "j * n + c < length d" using c by simp
  then show "fill_channel d n c 0 (replicate L (Num 0)) ! j = map (\<lambda>i. Num (real_of_int (sint (d ! (i * n + c))) / 32768)) [0..<L] ! j"
    using j n by (simp add: nth_fill_channel int16_sample_def)
qed

lemma decodeAudioData_even:
  assumes "even (length bytes)" "0 < n" "2 * n \<le> length bytes"
  shows "decodeAudioData bytes rate n =
     Inr \<lparr>sampleRate = rate, getChannelData =
           map (\<lambda>c. map (\<lambda>i. Num (real_of_int (sint (int16_view bytes ! (i * n + c))) / 32768))
                        [0..<length bytes div (2 * n)]) [0..<n]\<rparr>"
proof -
  let ?d = "int16_view bytes"
  let ?L = "length ?d div n"
  have L: "?L = length bytes div (2 * n)"
    by (simp add: length_int16_view div_mult2_eq)
  have "0 < ?L" using assms L by (simp add: div_greater_zero_iff)
  then have cb: "createBuffer n ?L rate = Inr \<lparr>sampleRate = rate, getChannelData = replicate n (replicate ?L (Num 0))\<rparr>"
    using assms by (simp add: createBuffer_def)
  have "map (\<lambda>channel. fill_channel ?d n channel 0 (replicate n (replicate ?L (Num 0)) ! channel)) [0..<n]
      = map (\<lambda>c. map (\<lambda>i. Num (real_of_int (sint (?d ! (i * n + c))) / 32768)) [0..<?L]) [0..<n]"
    using assms by (intro map_cong refl) (simp add: decode_channel)
  then show ?thesis
    using assms cb by (simp add: decodeAudioData_def Let_def L)
qed

lemma b64_table: "\<forall>n \<in> set [0..<64]. b64_index (b64_char n) = n \<and> b64_char n \<noteq> CHR ''=''"
  by code_simp

lemma b64_index_char: "n < 64 \<Longrightarrow> b64_index (b64_char n) = n"
  and b64_char_not_pad: "n < 64 \<Longrightarrow> b64_char n \<noteq> CHR ''=''"
  using b64_table by auto

lemma b64_arith3:
  assumes "a < 256" "b < 256" "c < (256::nat)"
  shows "a div 4 * 4 + (a mod 4 * 16 + b div 16) div 16 = a"
      "(a mod 4 * 16 + b div 16) mod 16 * 16 + (b mod 16 * 4 + c div 64) div 4 = b"
      "(b mod 16 * 4 + c div 64) mod 4 * 64 + c mod 64 = c"
      "a div 4 < 64" "a mod 4 * 16 + b div 16 < 64" "b mod 16 * 4 + c div 64 < 64" "c mod 64 < 64"
proof -
  have b: "b div 16 < 16" and c: "c div 64 < 4" using assms by simp_all
  have a4: "a mod 4 < 4" and b16: "b mod 16 < 16" by simp_all
  show "a div 4 * 4 + (a mod 4 * 16 + b div 16) div 16 = a" using b by simp
  show "(a mod 4 * 16 + b div 16) mod 16 * 16 + (b mod 16 * 4 + c div 64) div 4 = b"
    using b c by simp
  show "(b mod 16 * 4 + c div 64) mod 4 * 64 + c mod 64 = c" using c by simp
  show "a div 4 < 64" using assms by simp
  show "a mod 4 * 16 + b div 16 < 64" using a4 b by linarith
  show "b mod 16 * 4 + c div 64 < 64" using b16 c by linarith
  show "c mod 64 < 64" by simp
qed

lemma b64_dec_quad:
  "i < 64 \<Longrightarrow> j < 64 \<Longrightarrow> k < 64 \<Longrightarrow> l < 64 \<Longrightarrow>
   b64_dec (b64_char i # b64_char j # b64_char k # b64_char l # r) =
     [i * 4 + j div 16, j mod 16 * 16 + k div 4, k mod 4 * 64 + l] @ b64_dec r"
  by (simp add: b64_index_char b64_char_not_pad Let_def)

lemma b64_dec_pad1:
  "i < 64 \<Longrightarrow> j < 64 \<Longrightarrow> k < 64 \<Longrightarrow>
   b64_dec [b64_char i, b64_char j, b64_char k, CHR ''=''] = [i * 4 + j div 16, j mod 16 * 16 + k div 4]"
  by (simp add: b64_index_char b64_char_not_pad Let_def)

lemma b64_dec_pad2:
  "i < 64 \<Longrightarrow> j < 64 \<Longrightarrow>
   b64_dec [b64_char i, b64_char j, CHR ''='', CHR ''=''] = [i * 4 + j div 16]"
  by (simp add: b64_index_char b64_char_not_pad Let_def)

lemma b64_dec_enc: "\<forall>b \<in> set bs. b < 256 \<Longrightarrow> b64_dec (b64_enc bs) = bs"
proof (induction bs rule: b64_enc.induct)
  case (1 a b c r)
  then have lt: "a < 256" "b < 256" "c < 256" and r: "b64_dec (b64_enc r) = r" by simp_all
  note f = b64_arith3 [OF lt]
  show ?case
    by (simp only: b64_enc.simps append_Cons append_Nil b64_dec_quad [OF f(4) f(5) f(6) f(7)]
          f(1) f(2) f(3) r)
next
  case (2 a b)
  then have lt: "a < 256" "b < 256" by simp_all
  have z: "(0::nat) < 256" by simp
  note f = b64_arith3 [OF lt z]
  have g: "b mod 16 * 4 < 64" "(a mod 4 * 16 + b div 16) mod 16 * 16 + b mod 16 * 4 div 4 = b"
    using f(2) f(6) by simp_all
  show ?case
    by (simp only: b64_enc.simps b64_dec_pad1 [OF f(4) f(5) g(1)] f(1) g(2))
next
  case (3 a)
  then have lt: "a < 256" by simp
  have z: "(0::nat) < 256" by simp
  note f = b64_arith3 [OF lt z z]
  have g: "a mod 4 * 16 < 64" "a div 4 * 4 + a mod 4 * 16 div 16 = a"
    using f(1) f(5) by simp_all
  show ?case
    by (simp only: b64_enc.simps b64_dec_pad2 [OF f(4) g(1)] g(2))
next
  case 4
  show ?case by simp
qed

lemma base64_round_trip: "atob base64 (btoa base64 s) = s"
proof -
  have "\<forall>b \<in> set (map of_char s :: nat list). b < 256" by simp
  then have "b64_dec (b64_enc (map of_char s)) = map of_char s" by (rule b64_dec_enc)
  then show ?thesis by (simp add: base64_def o_def)
qed

lemma decode_createBlob:
  assumes "\<forall>s. atob p (btoa p s) = s"
  shows "int16_view (decode p (data (createBlob p xs))) = map (\<lambda>x. toInt16 (f32_times x 32768)) xs"
    and "length (decode p (data (createBlob p xs))) = 2 * length xs"
  using assms
  by (simp_all add: createBlob_def decode_encode int16_view_concat length_concat_int16_bytes
        del: map_map)

lemma quantize:
  assumes "- 1 \<le> x" "x < 1"
  shows "sint (toInt16 (f32_times (Num x) 32768)) = js_trunc (x * 32768)"
    and "(signed (word_of_int (js_trunc (x * 32768)) :: int16) :: real) = real_of_int (js_trunc (x * 32768))"
    and "\<bar>real_of_int (js_trunc (x * 32768)) / 32768 - x\<bar> < 1 / 32768"
proof -
  show "sint (toInt16 (f32_times (Num x) 32768)) = js_trunc (x * 32768)"
    using assms by (simp add: sint_toInt16 del: toInt16.simps)
  then have "real_of_int (sint (word_of_int (js_trunc (x * 32768)) :: int16)) = real_of_int (js_trunc (x * 32768))"
    by simp
  then show "(signed (word_of_int (js_trunc (x * 32768)) :: int16) :: real) = real_of_int (js_trunc (x * 32768))"
    by (simp only: of_int_sint)
  have "\<bar>real_of_int (js_trunc (x * 32768)) - x * 32768\<bar> < 1" by (rule js_trunc_err)
  then show "\<bar>real_of_int (js_trunc (x * 32768)) / 32768 - x\<bar> < 1 / 32768"
    by (simp add: field_simps abs_less_iff)
qed

text \<open>
  \<^bold>\<open>C8\<close> (as amended). The decoder does have error paths. A byte array of odd length makes
  the 16-bit view raise \<^verbatim>\<open>RangeError\<close>; with one channel, which is how the application
  calls the decoder, these are all the lengths that are not a multiple of
  \<open>2 \<times> channelCount\<close>. An array of even length shorter than one frame makes
  \<^verbatim>\<open>createBuffer\<close> raise \<^verbatim>\<open>NotSupportedError\<close>. An array of even length that holds at least
  one whole frame is decoded without error, whether or not its length is a multiple of
  \<open>2 \<times> channelCount\<close>: each channel gets \<open>length div (2 \<times> channelCount)\<close> samples,
  and the 16-bit values of a trailing partial frame are dropped.
\<close>
theorem decodeAudioData_lengths:
  "(odd (length bytes) \<longrightarrow> decodeAudioData bytes rate n = Inl RangeError) \<and>
   (even (length bytes) \<and> 0 < n \<and> length bytes < 2 * n \<longrightarrow>
      decodeAudioData bytes rate n = Inl NotSupportedError) \<and>
   (even (length bytes) \<and> 0 < n \<and> 2 * n \<le> length bytes \<longrightarrow>
      decodeAudioData bytes rate n =
        Inr \<lparr>sampleRate = rate, getChannelData =
              map (\<lambda>c. map (\<lambda>i. Num (real_of_int (sint (int16_view bytes ! (i * n + c))) / 32768))
                           [0..<length bytes div (2 * n)]) [0..<n]\<rparr>)"
proof (intro conjI impI)
  assume "odd (length bytes)"
  then show "decodeAudioData bytes rate n = Inl RangeError"
    by (simp add: decodeAudioData_def)
next
  assume a: "even (length bytes) \<and> 0 < n \<and> length bytes < 2 * n"
  then have "length (int16_view bytes) div n = 0"
    by (auto simp add: length_int16_view)
  then show "decodeAudioData bytes rate n = Inl NotSupportedError"
    using a by (simp add: decodeAudioData_def createBuffer_def)
next
  assume "even (length bytes) \<and> 0 < n \<and> 2 * n \<le> length bytes"
  then show "decodeAudioData bytes rate n =
        Inr \<lparr>sampleRate = rate, getChannelData =
              map (\<lambda>c. map (\<lambda>i. Num (real_of_int (sint (int16_view bytes ! (i * n + c))) / 32768))
                           [0..<length bytes div (2 * n)]) [0..<n]\<rparr>"
    by (simp add: decodeAudioData_even)
qed

theorem decodeAudioData_lengths_witness:
  "decodeAudioData [1, 0, 2, 0, 3] 24000 2 = Inl RangeError \<and>
   decodeAudioData [1, 0] 24000 2 = Inl NotSupportedError \<and>
   decodeAudioData [1, 0, 255, 255, 3, 0] 24000 2 =
     Inr \<lparr>sampleRate = 24000, getChannelData = [[Num (1 / 32768)], [Num (- 1 / 32768)]]\<rparr>"
proof -
  have u: "[0..<2] = [0, 1]" by code_simp
  show ?thesis
    using decodeAudioData_lengths [of "[1, 0, 2, 0, 3]" 24000 2]
          decodeAudioData_lengths [of "[1, 0]" 24000 2]
          decodeAudioData_lengths [of "[1, 0, 255, 255, 3, 0]" 24000 2]
    by (simp add: bytes_int16_def u)
qed

text \<open>
  \<^bold>\<open>C8\<close> as stated fails: one byte for one channel is a length that is not a multiple of
  \<open>2 \<times> channelCount\<close>, and the decoder raises \<^verbatim>\<open>RangeError\<close>.
\<close>
theorem decodeAudioData_odd_counterexample:
  "decodeAudioData [0] 24000 1 = Inl RangeError"
  by (simp add: decodeAudioData_def)

text \<open>
  \<^bold>\<open>C4\<close> (as amended). For every array of samples in the half-open interval \<open>[-1, 1)\<close>,
  and any \<^verbatim>\<open>btoa\<close>/\<^verbatim>\<open>atob\<close> pair where \<^verbatim>\<open>atob\<close> undoes \<^verbatim>\<open>btoa\<close>, encoding with
  \<^verbatim>\<open>createBlob\<close> and decoding the blob's text with \<^verbatim>\<open>decode\<close> and \<^verbatim>\<open>decodeAudioData\<close> for
  one channel reproduces every original sample: the decoder returns one channel of the same
  length, in which the sample at each position differs from the original by less than
  \<open>1/32768\<close>. (The empty array has no sample to reproduce; for it the decoder raises, since
  \<^verbatim>\<open>createBuffer\<close> rejects the length zero.)
\<close>

theorem pcm_round_trip:
  assumes rt: "\<forall>s. atob p (btoa p s) = s"
    and rng: "\<forall>x \<in> set samples. - 1 \<le> x \<and> x < 1"
  shows "\<forall>i < length samples.
           \<exists>out. decodeAudioData (decode p (data (createBlob p (map Num samples)))) rate 1 =
                   Inr \<lparr>sampleRate = rate, getChannelData = [map Num out]\<rparr> \<and>
                 length out = length samples \<and>
                 \<bar>out ! i - samples ! i\<bar> < 1 / 32768"
proof (intro allI impI)
  fix i assume i: "i < length samples"
  then have ne: "samples \<noteq> []" by auto
  let ?bytes = "decode p (data (createBlob p (map Num samples)))"
  let ?out = "map (\<lambda>x. real_of_int (js_trunc (x * 32768)) / 32768) samples"
  have v: "int16_view ?bytes = map (\<lambda>x. toInt16 (f32_times x 32768)) (map Num samples)"
    and l: "length ?bytes = 2 * length samples"
    using decode_createBlob [OF rt, of "map Num samples"] by simp_all
  have "decodeAudioData ?bytes rate 1 =
      Inr \<lparr>sampleRate = rate, getChannelData =
        map (\<lambda>c. map (\<lambda>i. Num (real_of_int (sint (int16_view ?bytes ! (i * 1 + c))) / 32768))
              [0..<length ?bytes div (2 * 1)]) [0..<1]\<rparr>"
    using ne by (intro decodeAudioData_even) (simp_all add: l Suc_leI)
  also have "map (\<lambda>c. map (\<lambda>i. Num (real_of_int (sint (int16_view ?bytes ! (i * 1 + c))) / 32768))
              [0..<length ?bytes div (2 * 1)]) [0..<1] = [map Num ?out]"
    using rng by (auto simp add: l v quantize(2) intro!: nth_equalityI)
  finally have d: "decodeAudioData ?bytes rate 1 =
      Inr \<lparr>sampleRate = rate, getChannelData = [map Num ?out]\<rparr>" .
  have "- 1 \<le> samples ! i \<and> samples ! i < 1" using rng i by simp
  then have "\<bar>?out ! i - samples ! i\<bar> < 1 / 32768"
    using quantize(3) [of "samples ! i"] i by simp
  with d show "\<exists>out. decodeAudioData ?bytes rate 1 =
                   Inr \<lparr>sampleRate = rate, getChannelData = [map Num out]\<rparr> \<and>
                 length out = length samples \<and>
                 \<bar>out ! i - samples ! i\<bar> < 1 / 32768"
    by (intro exI [of _ ?out]) simp
qed

theorem pcm_round_trip_witness:
  "\<exists>out. decodeAudioData (decode base64 (data (createBlob base64 (map Num [1 / 2, - 1, 1 / 3])))) 24000 1 =
           Inr \<lparr>sampleRate = 24000, getChannelData = [map Num out]\<rparr> \<and>
         length out = length [1 / 2, - 1, 1 / 3 :: real] \<and>
         \<bar>out ! 2 - [1 / 2, - 1, 1 / 3] ! 2\<bar> < 1 / 32768"
proof -
  have rt: "\<forall>s. atob base64 (btoa base64 s) = s" by (simp add: base64_round_trip)
  have rng: "\<forall>x \<in> set [1 / 2, - 1, 1 / 3 :: real]. - 1 \<le> x \<and> x < 1" by simp
  have i: "2 < length [1 / 2, - 1, 1 / 3 :: real]" by simp
  show ?thesis using pcm_round_trip [OF rt rng, of 24000, rule_format, OF i] .
qed

text \<open>
  \<^bold>\<open>C4\<close> as stated fails at the sample \<open>1.0\<close>, which lies in \<open>[-1, 1]\<close>: \<open>1.0 * 32768\<close>
  is \<open>32768\<close>, which wraps to \<open>-32768\<close> in an \<^verbatim>\<open>Int16Array\<close>, and the decoder returns
  \<open>-1.0\<close>, at distance 2 from the original.
\<close>
theorem pcm_round_trip_counterexample:
  "decodeAudioData (decode base64 (data (createBlob base64 [Num 1]))) 24000 1 =
     Inr \<lparr>sampleRate = 24000, getChannelData = [[Num (- 1)]]\<rparr>"
proof -
  have "decode base64 (data (createBlob base64 [Num 1])) = [0, 128]"
    by (simp add: createBlob_def decode_encode base64_round_trip int16_bytes_def js_trunc_def)
  then show ?thesis
    using decodeAudioData_even [of "[0, 128]" 1 24000]
    by (simp add: bytes_int16_def)
qed

section \<open>Properties of the audio output scheduler\<close>

lemma startTimes_append: "startTimes (xs @ ys) = startTimes xs @ startTimes ys"
  by (induction xs rule: startTimes.induct) simp_all

lemma playBuffer_sched:
  "startTimes (effects (playBuffer t buf s)) = startTimes (effects s) @ [max (nextStartTimeRef s) t]"
  "nextStartTimeRef (playBuffer t buf s) = max (nextStartTimeRef s) t + duration buf"
  by (simp_all add: playBuffer_def setStatus_def emit_def startTimes_append Let_def)

lemma playBuffers_spec:
  "startTimes (effects (playBuffers cs s)) = startTimes (effects s) @ spec_enqueue (nextStartTimeRef s) cs"
  by (induction cs s rule: playBuffers.induct) (simp_all add: playBuffer_sched Let_def)

lemma length_spec_enqueue: "length (spec_enqueue n cs) = length cs"
  by (induction n cs rule: spec_enqueue.induct) (simp_all add: Let_def)

lemma spec_enqueue_clock: "k < length cs \<Longrightarrow> fst (cs ! k) \<le> spec_enqueue n cs ! k"
proof (induction n cs arbitrary: k rule: spec_enqueue.induct)
  case (1 n)
  then show ?case by simp
next
  case (2 n t b cs)
  then show ?case by (cases k) (simp_all add: Let_def)
qed

lemma spec_enqueue_hd: "cs \<noteq> [] \<Longrightarrow> spec_enqueue n cs ! 0 = max n (fst (cs ! 0))"
  by (cases cs) (auto simp: Let_def)

lemma spec_enqueue_Suc:
  "Suc k < length cs \<Longrightarrow>
   spec_enqueue n cs ! Suc k = max (spec_enqueue n cs ! k + duration (snd (cs ! k))) (fst (cs ! Suc k))"
proof (induction n cs arbitrary: k rule: spec_enqueue.induct)
  case (1 n)
  then show ?case by simp
next
  case (2 n t b cs)
  show ?case
  proof (cases k)
    case 0
    with 2 show ?thesis by (simp add: Let_def spec_enqueue_hd)
  next
    case (Suc j)
    with 2 show ?thesis by (simp add: Let_def)
  qed
qed

text \<open>
  \<^bold>\<open>C1\<close> (as amended). For chunks handed to the scheduler one after the other, with no
  stop-all in between, and any clock readings: every chunk is started at the maximum of
  \<open>nextStartTimeRef\<close> and the clock, and \<open>nextStartTimeRef\<close> then advances by the chunk's
  duration. So chunk \<open>k + 1\<close> starts at the maximum of (start of chunk \<open>k\<close> plus its duration)
  and the clock read when chunk \<open>k + 1\<close> is scheduled: never earlier than the end of chunk
  \<open>k\<close>, never before the clock, and exactly at the end of chunk \<open>k\<close> when the clock has not
  passed it.
\<close>

theorem gapless_schedule:
  "\<exists>ts. startTimes (effects (playBuffers chunks s)) = startTimes (effects s) @ ts \<and>
        length ts = length chunks \<and>
        (chunks \<noteq> [] \<longrightarrow> ts ! 0 = max (nextStartTimeRef s) (fst (chunks ! 0))) \<and>
        (\<forall>k. Suc k < length chunks \<longrightarrow>
             ts ! Suc k = max (ts ! k + duration (snd (chunks ! k))) (fst (chunks ! Suc k)) \<and>
             ts ! k + duration (snd (chunks ! k)) \<le> ts ! Suc k) \<and>
        (\<forall>k < length chunks. fst (chunks ! k) \<le> ts ! k)"
proof (intro exI conjI allI impI)
  show "startTimes (effects (playBuffers chunks s)) =
        startTimes (effects s) @ spec_enqueue (nextStartTimeRef s) chunks"
    by (rule playBuffers_spec)
  show "length (spec_enqueue (nextStartTimeRef s) chunks) = length chunks"
    by (rule length_spec_enqueue)
  show "spec_enqueue (nextStartTimeRef s) chunks ! 0 = max (nextStartTimeRef s) (fst (chunks ! 0))"
    if "chunks \<noteq> []" using that by (rule spec_enqueue_hd)
  show "spec_enqueue (nextStartTimeRef s) chunks ! Suc k =
        max (spec_enqueue (nextStartTimeRef s) chunks ! k + duration (snd (chunks ! k)))
            (fst (chunks ! Suc k))"
    if "Suc k < length chunks" for k using that by (rule spec_enqueue_Suc)
  show "spec_enqueue (nextStartTimeRef s) chunks ! k + duration (snd (chunks ! k))
        \<le> spec_enqueue (nextStartTimeRef s) chunks ! Suc k"
    if "Suc k < length chunks" for k using spec_enqueue_Suc [OF that, of "nextStartTimeRef s"] by simp
  show "fst (chunks ! k) \<le> spec_enqueue (nextStartTimeRef s) chunks ! k"
    if "k < length chunks" for k using that by (rule spec_enqueue_clock)
qed

theorem gapless_schedule_witness:
  "\<exists>ts. startTimes (effects (playBuffers
            [(0, \<lparr>sampleRate = 24000, getChannelData = [[Num 0, Num 0, Num 0]]\<rparr>),
             (1, \<lparr>sampleRate = 24000, getChannelData = [[Num 0, Num 0, Num 0]]\<rparr>),
             (1, \<lparr>sampleRate = 24000, getChannelData = [[Num 0, Num 0, Num 0]]\<rparr>)] initial)) = ts \<and>
        length ts = 3 \<and> ts ! 0 = 0 \<and> ts ! 1 = 1 \<and> ts ! 2 = 1 + 1 / 8000"
proof -
  let ?b = "\<lparr>sampleRate = 24000, getChannelData = [[Num 0, Num 0, Num 0]]\<rparr>"
  let ?cs = "[(0 :: real, ?b), (1, ?b), (1, ?b)]"
  have d: "duration ?b = 1 / 8000" by (simp add: duration_def)
  from gapless_schedule [of ?cs initial] obtain ts where
    p: "startTimes (effects (playBuffers ?cs initial)) = startTimes (effects initial) @ ts \<and>
        length ts = length ?cs \<and>
        (?cs \<noteq> [] \<longrightarrow> ts ! 0 = max (nextStartTimeRef initial) (fst (?cs ! 0))) \<and>
        (\<forall>k. Suc k < length ?cs \<longrightarrow>
             ts ! Suc k = max (ts ! k + duration (snd (?cs ! k))) (fst (?cs ! Suc k)) \<and>
             ts ! k + duration (snd (?cs ! k)) \<le> ts ! Suc k) \<and>
        (\<forall>k < length ?cs. fst (?cs ! k) \<le> ts ! k)" ..
  then have e: "startTimes (effects (playBuffers ?cs initial)) = startTimes (effects initial) @ ts"
    and l: "length ts = length ?cs"
    and h: "?cs \<noteq> [] \<longrightarrow> ts ! 0 = max (nextStartTimeRef initial) (fst (?cs ! 0))"
    and k: "\<forall>k. Suc k < length ?cs \<longrightarrow>
             ts ! Suc k = max (ts ! k + duration (snd (?cs ! k))) (fst (?cs ! Suc k)) \<and>
             ts ! k + duration (snd (?cs ! k)) \<le> ts ! Suc k"
    by simp_all
  have t0: "ts ! 0 = 0" using h by (simp add: initial_def)
  have t1: "ts ! 1 = 1" using k [rule_format, of 0] t0 d by simp
  have t2: "ts ! 2 = 1 + 1 / 8000" using k [rule_format, of 1] t1 d by (simp add: numeral_2_eq_2)
  show ?thesis using e l t0 t1 t2 by (simp add: initial_def)
qed

text \<open>
  \<^bold>\<open>C1\<close> as stated fails where it says that chunk \<open>k + 1\<close> starts at the start of chunk
  \<open>k\<close> plus its duration: a chunk of 3 samples (1/8000 s) scheduled at clock 0 and a
  second chunk that arrives at clock 1 start at 0 and at 1.
\<close>

theorem gapless_equal_counterexample:
  "startTimes (effects (playBuffers
      [(0, \<lparr>sampleRate = 24000, getChannelData = [[Num 0, Num 0, Num 0]]\<rparr>),
       (1, \<lparr>sampleRate = 24000, getChannelData = [[Num 0, Num 0, Num 0]]\<rparr>)] initial)) = [0, 1] \<and>
   duration \<lparr>sampleRate = 24000, getChannelData = [[Num 0, Num 0, Num 0]]\<rparr> = 1 / 8000 \<and>
   startTimes (effects (playBuffers
      [(0, \<lparr>sampleRate = 24000, getChannelData = [[Num 0, Num 0, Num 0]]\<rparr>),
       (1, \<lparr>sampleRate = 24000, getChannelData = [[Num 0, Num 0, Num 0]]\<rparr>)] initial)) ! 1 \<noteq>
   startTimes (effects (playBuffers
      [(0, \<lparr>sampleRate = 24000, getChannelData = [[Num 0, Num 0, Num 0]]\<rparr>),
       (1, \<lparr>sampleRate = 24000, getChannelData = [[Num 0, Num 0, Num 0]]\<rparr>)] initial)) ! 0 +
   duration \<lparr>sampleRate = 24000, getChannelData = [[Num 0, Num 0, Num 0]]\<rparr>"
  by (simp add: playBuffer_def setStatus_def emit_def initial_def duration_def Let_def)

section \<open>Properties of the voice activity gate\<close>

lemma realtimeInputs_append: "realtimeInputs (xs @ ys) = realtimeInputs xs @ realtimeInputs ys"
  by (induction xs rule: realtimeInputs.induct) simp_all

lemma realtimeInputs_stops: "realtimeInputs (map SourceStop srcs) = []"
  by (induction srcs) simp_all

lemma onaudioprocess_loud:
  assumes "inputData \<noteq> []" "volume inputData > noiseThreshold s"
  shows "vadActiveRef (onaudioprocess p inputData s) = 5"
    and "noiseThreshold (onaudioprocess p inputData s) = noiseThreshold s"
    and "sessionRef (onaudioprocess p inputData s) = sessionRef s"
    and "sessionRef s \<Longrightarrow> realtimeInputs (effects (onaudioprocess p inputData s)) =
           realtimeInputs (effects s) @ [createBlob p (map Num inputData)]"
  using assms
  by (simp_all add: onaudioprocess_def sendRealtimeInput_def stopAllAudio_def setStatus_def
        emit_def Let_def realtimeInputs_append realtimeInputs_stops)

lemma onaudioprocess_silent:
  assumes "\<not> (inputData \<noteq> [] \<and> volume inputData > noiseThreshold s)"
  shows "vadActiveRef (onaudioprocess p inputData s) =
           (if vadActiveRef s > 0 then vadActiveRef s - 1 else vadActiveRef s)"
    and "noiseThreshold (onaudioprocess p inputData s) = noiseThreshold s"
    and "sessionRef (onaudioprocess p inputData s) = sessionRef s"
    and "sessionRef s \<Longrightarrow> realtimeInputs (effects (onaudioprocess p inputData s)) =
           realtimeInputs (effects s) @
           (if vadActiveRef s > 0 then [createBlob p (map Num inputData)] else [])"
  using assms
  by (auto simp add: onaudioprocess_def sendRealtimeInput_def emit_def Let_def realtimeInputs_append)

lemma run_append: "run p (xs @ ys) s = run p ys (run p xs s)"
  by (induction xs arbitrary: s) simp_all

lemma silent_frames:
  assumes "sessionRef s"
    and "\<forall>f \<in> set fs. \<not> (f \<noteq> [] \<and> volume f > noiseThreshold s)"
    and "int (length fs) \<le> vadActiveRef s"
  shows "vadActiveRef (run p (map AudioProcess fs) s) = vadActiveRef s - int (length fs) \<and>
         noiseThreshold (run p (map AudioProcess fs) s) = noiseThreshold s \<and>
         sessionRef (run p (map AudioProcess fs) s) \<and>
         realtimeInputs (effects (run p (map AudioProcess fs) s)) =
           realtimeInputs (effects s) @ map (\<lambda>f. createBlob p (map Num f)) fs"
  using assms
proof (induction fs arbitrary: s)
  case Nil
  then show ?case by simp
next
  case (Cons f fs)
  let ?s = "onaudioprocess p f s"
  have f: "\<not> (f \<noteq> [] \<and> volume f > noiseThreshold s)" using Cons.prems by simp
  have pos: "vadActiveRef s > 0" using Cons.prems by simp
  note o = onaudioprocess_silent [OF f, of p]
  have "vadActiveRef (run p (map AudioProcess fs) ?s) = vadActiveRef ?s - int (length fs) \<and>
         noiseThreshold (run p (map AudioProcess fs) ?s) = noiseThreshold ?s \<and>
         sessionRef (run p (map AudioProcess fs) ?s) \<and>
         realtimeInputs (effects (run p (map AudioProcess fs) ?s)) =
           realtimeInputs (effects ?s) @ map (\<lambda>f. createBlob p (map Num f)) fs"
    using Cons.prems pos by (intro Cons.IH) (simp_all add: o)
  then show ?case using Cons.prems pos by (simp add: o)
qed





text \<open>
  \<^bold>\<open>C5\<close>. With the session in place, for one frame above the threshold followed by five
  frames not above it and one more: exactly the first six frames are sent, in order; the
  counter is 5 after the active frame and one less after each of the five silent frames.
\<close>

theorem vad_hangover:
  assumes ses: "sessionRef s"
    and a: "a \<noteq> [] \<and> volume a > noiseThreshold s"
    and len: "length silents = 5"
    and sil: "\<forall>f \<in> set (silents @ [z]). \<not> (f \<noteq> [] \<and> volume f > noiseThreshold s)"
  shows "realtimeInputs (effects (run p (map AudioProcess (a # silents @ [z])) s)) =
           realtimeInputs (effects s) @ map (\<lambda>f. createBlob p (map Num f)) (a # silents) \<and>
         (\<forall>k \<le> 5. vadActiveRef (run p (map AudioProcess (a # take k silents)) s) = 5 - int k)"
proof -
  let ?s1 = "onaudioprocess p a s"
  note l = onaudioprocess_loud [of a s p]
  have s1: "sessionRef ?s1" "vadActiveRef ?s1 = 5" "noiseThreshold ?s1 = noiseThreshold s"
    "realtimeInputs (effects ?s1) = realtimeInputs (effects s) @ [createBlob p (map Num a)]"
    using a ses l by simp_all
  have part: "vadActiveRef (run p (map AudioProcess fs) ?s1) = 5 - int (length fs) \<and>
         noiseThreshold (run p (map AudioProcess fs) ?s1) = noiseThreshold s \<and>
         sessionRef (run p (map AudioProcess fs) ?s1) \<and>
         realtimeInputs (effects (run p (map AudioProcess fs) ?s1)) =
           realtimeInputs (effects s) @ map (\<lambda>f. createBlob p (map Num f)) (a # fs)"
    if "set fs \<subseteq> set silents" "length fs \<le> 5" for fs
    using silent_frames [of ?s1 fs p] that sil s1 by auto
  let ?s6 = "run p (map AudioProcess silents) ?s1"
  have s6: "vadActiveRef ?s6 = 0" "noiseThreshold ?s6 = noiseThreshold s" "sessionRef ?s6"
    "realtimeInputs (effects ?s6) = realtimeInputs (effects s) @ map (\<lambda>f. createBlob p (map Num f)) (a # silents)"
    using part [of silents] len by simp_all
  have z: "\<not> (z \<noteq> [] \<and> volume z > noiseThreshold ?s6)" using sil s6 by simp
  have "realtimeInputs (effects (onaudioprocess p z ?s6)) = realtimeInputs (effects ?s6)"
    using onaudioprocess_silent(4) [OF z, of p] s6 by simp
  then have first: "realtimeInputs (effects (run p (map AudioProcess (a # silents @ [z])) s)) =
           realtimeInputs (effects s) @ map (\<lambda>f. createBlob p (map Num f)) (a # silents)"
    using s6 by (simp add: run_append)
  have second: "vadActiveRef (run p (map AudioProcess (a # take k silents)) s) = 5 - int k" if "k \<le> 5" for k
    using part [of "take k silents"] that len by (simp add: set_take_subset min_def)
  show ?thesis using first second by blast
qed

theorem vad_hangover_witness:
  "realtimeInputs (effects (run base64
       (map AudioProcess ([1 / 2] # replicate 5 [0] @ [[0]])) (initial\<lparr>sessionRef := True\<rparr>))) =
     map (\<lambda>f. createBlob base64 (map Num f)) ([1 / 2] # replicate 5 [0]) \<and>
   vadActiveRef (run base64 (map AudioProcess ([1 / 2] # take 0 (replicate 5 [0])))
                     (initial\<lparr>sessionRef := True\<rparr>)) = 5 \<and>
   vadActiveRef (run base64 (map AudioProcess ([1 / 2] # take 3 (replicate 5 [0])))
                     (initial\<lparr>sessionRef := True\<rparr>)) = 2 \<and>
   vadActiveRef (run base64 (map AudioProcess ([1 / 2] # take 5 (replicate 5 [0])))
                     (initial\<lparr>sessionRef := True\<rparr>)) = 0"
proof -
  let ?s = "initial\<lparr>sessionRef := True\<rparr>"
  have h: "sessionRef ?s" "[1 / 2] \<noteq> [] \<and> volume [1 / 2] > noiseThreshold ?s"
    "length (replicate 5 [0 :: real]) = 5"
    "\<forall>f \<in> set (replicate 5 [0] @ [[0]]). \<not> (f \<noteq> [] \<and> volume f > noiseThreshold ?s)"
    by (simp_all add: initial_def volume_def)
  note t = vad_hangover [OF h, of base64]
  have k: "vadActiveRef (run base64 (map AudioProcess ([1 / 2] # take k (replicate 5 [0]))) ?s)
           = 5 - int k" if "k \<le> 5" for k
    using t that by blast
  show ?thesis using t k [of 0] k [of 3] k [of 5] by (simp add: initial_def)
qed

section \<open>Properties of the tool-call dispatcher\<close>

lemma toolResponses_append: "toolResponses (xs @ ys) = toolResponses xs @ toolResponses ys"
  by (induction xs rule: toolResponses.induct) simp_all

text \<open>One iteration of the second variant's loop, branch by branch.\<close>

lemma toolCall_step_set_expression:
  "fc_name fc = ''set_expression'' \<Longrightarrow>
     toolCall_step env fc s =
       (sendToolResponse fc ''ok'' (setExpression (arg fc ''expression'') s), None)"
  by (simp add: toolCall_step_def)

lemma toolCall_step_set_sticker:
  "fc_name fc = ''set_sticker'' \<Longrightarrow>
     toolCall_step env fc s =
       (sendToolResponse fc ''ok''
          (s\<lparr>stickers := stickers s @
               [\<lparr>sticker_icon = arg fc ''icon'',
                 sticker_position = (case fc_args fc ''position'' of
                                       Some v \<Rightarrow> if v = [] then ''top-right'' else v
                                     | None \<Rightarrow> ''top-right''),
                 sticker_id = dateNow env\<rparr>]\<rparr>), None)"
  by (simp add: toolCall_step_def Let_def)

lemma toolCall_step_display_thought:
  assumes "fc_name fc = ''display_thought''"
  obtains s' where "toolCall_step env fc s = (sendToolResponse fc ''ok'' s', None)"
    and "status s' = status s" and "statusRef s' = statusRef s" and "boredom s' = boredom s"
    and "sourcesRef s' = sourcesRef s" and "sessionRef s' = sessionRef s"
    and "effects s' = effects s" and "expression s' = expression s"
proof -
  let ?nt = "\<lparr>thought_type = arg fc ''type'', thought_value = arg fc ''content'',
              thought_timestamp = Some (dateNow env)\<rparr>"
  let ?s1 = "s\<lparr>thought := Some ?nt\<rparr>"
  let ?s' = "if thought_type ?nt = ''image'' \<or> thought_type ?nt = ''generated''
             then ?s1\<lparr>memoryBank := ?nt # memoryBank ?s1\<rparr> else ?s1"
  have "toolCall_step env fc s = (sendToolResponse fc ''ok'' ?s', None)"
    using assms by (simp add: toolCall_step_def Let_def)
  then show ?thesis by (rule that) simp_all
qed

lemma toolCall_step_execute_javascript:
  "fc_name fc = ''execute_javascript'' \<Longrightarrow>
     toolCall_step env fc s =
       (case runFunction env (arg fc ''code'') of
          Returns result \<Rightarrow>
            (sendToolResponse fc
               (case result of Some r \<Rightarrow> r | None \<Rightarrow> ''Executed successfully'') s, None)
        | Throws msg \<Rightarrow> (sendToolResponse fc (''Error: '' @ msg) s, None)
        | ThrowsNullish \<Rightarrow> (s, Some TypeError))"
  by (simp add: toolCall_step_def split: outcome.splits)

lemma toolCall_step_update_face_css:
  "fc_name fc = ''update_face_css'' \<Longrightarrow>
     toolCall_step env fc s =
       (sendToolResponse fc ''CSS Applied'' (s\<lparr>aiCustomCss := arg fc ''css''\<rparr>), None)"
  by (simp add: toolCall_step_def)

lemma startVision_frame:
  "status (fst (startVision env ty s)) = status s"
  "statusRef (fst (startVision env ty s)) = statusRef s"
  "boredom (fst (startVision env ty s)) = boredom s"
  "sourcesRef (fst (startVision env ty s)) = sourcesRef s"
  "sessionRef (fst (startVision env ty s)) = sessionRef s"
  "effects (fst (startVision env ty s)) = effects s"
  "expression (fst (startVision env ty s)) = expression s"
  by (simp_all add: startVision_def stopVision_def Let_def split: option.splits)

lemma toolCall_step_toggle_vision:
  assumes "fc_name fc = ''toggle_vision''"
  obtains s' msg where "toolCall_step env fc s = (sendToolResponse fc msg s', None)"
    and "status s' = status s" and "statusRef s' = statusRef s" and "boredom s' = boredom s"
    and "sourcesRef s' = sourcesRef s" and "sessionRef s' = sessionRef s"
    and "effects s' = effects s" and "expression s' = expression s"
proof (cases "arg fc ''type'' = ''none''")
  case True
  have "toolCall_step env fc s = (sendToolResponse fc ''Vision Off'' (stopVision s), None)"
    using assms True by (simp add: toolCall_step_def)
  then show ?thesis by (rule that) (simp_all add: stopVision_def)
next
  case False
  obtain s1 success msg where sv: "startVision env (arg fc ''type'') s = (s1, success, msg)"
    by (cases "startVision env (arg fc ''type'') s")
  have f: "status s1 = status s" "statusRef s1 = statusRef s" "boredom s1 = boredom s"
    "sourcesRef s1 = sourcesRef s" "sessionRef s1 = sessionRef s" "effects s1 = effects s"
    "expression s1 = expression s"
    using startVision_frame [of env "arg fc ''type''" s] sv by simp_all
  have "toolCall_step env fc s = (sendToolResponse fc msg s1, None)"
    using assms False sv by (simp add: toolCall_step_def)
  then show ?thesis by (rule that) (rule f)+
qed

lemma toolCall_step_other:
  "fc_name fc \<notin> set catalog \<Longrightarrow> toolCall_step env fc s = (sendToolResponse fc ''ok'' s, None)"
  by (simp add: toolCall_step_def catalog_def)

lemma catalog_cases:
  obtains "fc_name fc = ''set_expression''" | "fc_name fc = ''set_sticker''"
  | "fc_name fc = ''display_thought''" | "fc_name fc = ''execute_javascript''"
  | "fc_name fc = ''update_face_css''" | "fc_name fc = ''toggle_vision''"
  | "fc_name fc \<notin> set catalog"
  by (auto simp add: catalog_def)

lemma sendToolResponse_reply:
  "sessionRef s \<Longrightarrow>
     toolResponses (effects (sendToolResponse fc result s)) =
       toolResponses (effects s) @
         [\<lparr>fr_id = fc_id fc, fr_name = fc_name fc, fr_result = result\<rparr>] \<and>
     sessionRef (sendToolResponse fc result s)"
  by (simp add: sendToolResponse_def emit_def toolResponses_append)

lemma toolCall_step_raise:
  assumes "snd (toolCall_step env fc s) = Some e"
  shows "fst (toolCall_step env fc s) = s \<and> e = TypeError \<and>
         fc_name fc = ''execute_javascript'' \<and>
         runFunction env (arg fc ''code'') = ThrowsNullish"
proof (cases fc rule: catalog_cases)
  case 1
  then show ?thesis using assms by (simp add: toolCall_step_set_expression)
next
  case 2
  then show ?thesis using assms by (simp add: toolCall_step_set_sticker)
next
  case 3
  then show ?thesis using assms by (auto elim: toolCall_step_display_thought [of fc env s])
next
  case 4
  then show ?thesis
    using assms by (simp add: toolCall_step_execute_javascript split: outcome.splits)
next
  case 5
  then show ?thesis using assms by (simp add: toolCall_step_update_face_css)
next
  case 6
  then show ?thesis using assms by (auto elim: toolCall_step_toggle_vision [of fc env s])
next
  case 7
  then show ?thesis using assms by (simp add: toolCall_step_other)
qed

lemma toolCall_step_reply:
  assumes "sessionRef s" and "snd (toolCall_step env fc s) = None"
  shows "\<exists>r. toolResponses (effects (fst (toolCall_step env fc s))) =
               toolResponses (effects s) @ [r] \<and>
             fr_id r = fc_id fc \<and> sessionRef (fst (toolCall_step env fc s)) \<and>
             (fc_name fc \<notin> set catalog \<longrightarrow> fr_result r = ''ok'') \<and>
             (\<forall>msg. fc_name fc = ''execute_javascript'' \<and>
                    runFunction env (arg fc ''code'') = Throws msg
                \<longrightarrow> fr_result r = ''Error: '' @ msg)"
proof (cases fc rule: catalog_cases)
  case 1
  then show ?thesis
    using assms(1)
    by (simp add: toolCall_step_set_expression sendToolResponse_reply setExpression_def
        catalog_def)
next
  case 2
  then show ?thesis
    using assms(1)
    by (simp add: toolCall_step_set_sticker sendToolResponse_reply catalog_def)
next
  case 3
  then obtain s' where "toolCall_step env fc s = (sendToolResponse fc ''ok'' s', None)"
    "sessionRef s' = sessionRef s" "effects s' = effects s"
    by (rule toolCall_step_display_thought [of fc env s])
  then show ?thesis
    using assms(1) 3 by (simp add: sendToolResponse_reply catalog_def)
next
  case 4
  then show ?thesis
    using assms
    by (simp add: toolCall_step_execute_javascript sendToolResponse_reply catalog_def
        split: outcome.splits)
next
  case 5
  then show ?thesis
    using assms(1)
    by (simp add: toolCall_step_update_face_css sendToolResponse_reply catalog_def)
next
  case 6
  then obtain s' msg where "toolCall_step env fc s = (sendToolResponse fc msg s', None)"
    "sessionRef s' = sessionRef s" "effects s' = effects s"
    by (rule toolCall_step_toggle_vision [of fc env s])
  then show ?thesis
    using assms(1) 6 by (simp add: sendToolResponse_reply catalog_def)
next
  case 7
  then have "fc_name fc \<noteq> ''execute_javascript''" by (auto simp add: catalog_def)
  then show ?thesis
    using assms(1) 7 by (simp add: toolCall_step_other sendToolResponse_reply)
qed

text \<open>One iteration of the first variant's loop.\<close>

lemma toolCall_step_v1_set_expression:
  "fc_name fc = ''set_expression'' \<Longrightarrow>
     toolCall_step_v1 env fc s =
       (sendToolResponse_v1 fc ''ok'' (setExpression (arg fc ''expression'') s), None)"
  by (simp add: toolCall_step_v1_def)

lemma toolCall_step_v1_display_thought:
  "fc_name fc = ''display_thought'' \<Longrightarrow>
     toolCall_step_v1 env fc s =
       (sendToolResponse_v1 fc ''ok''
          (s\<lparr>thought := Some \<lparr>thought_type = arg fc ''type'', thought_value = arg fc ''content'',
                                thought_timestamp = None\<rparr>\<rparr>), None)"
  by (simp add: toolCall_step_v1_def)

lemma toolCall_step_v1_open_browser_action:
  "fc_name fc = ''open_browser_action'' \<Longrightarrow>
     toolCall_step_v1 env fc s =
       (case handleBrowserAction env (arg fc ''action'') (fc_args fc ''query'') s of
          (s1, Inl e) \<Rightarrow> (s1, Some e)
        | (s1, Inr result) \<Rightarrow> (sendToolResponse_v1 fc result s1, None))"
  by (simp add: toolCall_step_v1_def split: prod.splits sum.splits)

lemma toolCall_step_v1_other:
  "fc_name fc \<notin> set catalog_v1 \<Longrightarrow>
     toolCall_step_v1 env fc s = (sendToolResponse_v1 fc ''ok'' s, None)"
  by (simp add: toolCall_step_v1_def catalog_v1_def)

lemma handleBrowserAction_effects:
  "handleBrowserAction env action query s = (s1, r) \<Longrightarrow>
     toolResponses (effects s1) = toolResponses (effects s)"
  by (auto simp add: handleBrowserAction_def emit_def toolResponses_append
      split: if_splits option.splits)

lemma toolCall_step_v1_reply:
  assumes "snd (toolCall_step_v1 env fc s) = None"
  shows "\<exists>r. toolResponses (effects (fst (toolCall_step_v1 env fc s))) =
               toolResponses (effects s) @ [r] \<and>
             fr_id r = fc_id fc \<and>
             (fc_name fc \<notin> set catalog_v1 \<longrightarrow> fr_result r = ''ok'')"
proof -
  consider "fc_name fc = ''set_expression''" | "fc_name fc = ''display_thought''"
    | "fc_name fc = ''open_browser_action''" | "fc_name fc \<notin> set catalog_v1"
    by (auto simp add: catalog_v1_def)
  then show ?thesis
  proof cases
    case 1
    then show ?thesis
      by (simp add: toolCall_step_v1_set_expression sendToolResponse_v1_def emit_def
          setExpression_def toolResponses_append catalog_v1_def)
  next
    case 2
    then show ?thesis
      by (simp add: toolCall_step_v1_display_thought sendToolResponse_v1_def emit_def
          toolResponses_append catalog_v1_def)
  next
    case 3
    obtain s1 r where h: "handleBrowserAction env (arg fc ''action'') (fc_args fc ''query'') s
        = (s1, r)"
      by (cases "handleBrowserAction env (arg fc ''action'') (fc_args fc ''query'') s")
    show ?thesis
      using 3 assms h handleBrowserAction_effects [OF h]
      by (cases r)
        (simp_all add: toolCall_step_v1_open_browser_action sendToolResponse_v1_def emit_def
          toolResponses_append catalog_v1_def)
  next
    case 4
    then show ?thesis
      by (simp add: toolCall_step_v1_other sendToolResponse_v1_def emit_def
          toolResponses_append)
  qed
qed

text \<open>
  What does hold of the loops: a batch that is handled to its end gets one response per
  invocation, in order and with the invocation's id; a name outside the catalogue is
  answered \<^verbatim>\<open>"ok"\<close>; in the second variant, with the session in place, code that throws a
  value with a readable message is answered \<^verbatim>\<open>Error: \<close> and that message.
\<close>

lemma toolCall_loop_replies:
  assumes "sessionRef s" and "snd (toolCall_loop env fcs s) = None"
  shows "\<exists>rs. toolResponses (effects (fst (toolCall_loop env fcs s))) =
                toolResponses (effects s) @ rs \<and>
          map fr_id rs = map fc_id fcs \<and>
          (\<forall>i < length fcs. fc_name (fcs ! i) \<notin> set catalog \<longrightarrow> fr_result (rs ! i) = ''ok'') \<and>
          (\<forall>i < length fcs. \<forall>msg. fc_name (fcs ! i) = ''execute_javascript'' \<and>
               runFunction env (arg (fcs ! i) ''code'') = Throws msg \<longrightarrow>
               fr_result (rs ! i) = ''Error: '' @ msg)"
  using assms
proof (induction fcs arbitrary: s)
  case Nil
  then show ?case by simp
next
  case (Cons fc fcs)
  obtain s' o' where st: "toolCall_step env fc s = (s', o')" by (cases "toolCall_step env fc s")
  have o': "o' = None" using Cons.prems(2) st by (cases o') simp_all
  have loop: "toolCall_loop env (fc # fcs) s = toolCall_loop env fcs s'"
    using st o' by simp
  from toolCall_step_reply [OF Cons.prems(1), of env fc] st o' obtain r where
    r: "toolResponses (effects s') = toolResponses (effects s) @ [r]"
       "fr_id r = fc_id fc" "sessionRef s'"
       "fc_name fc \<notin> set catalog \<longrightarrow> fr_result r = ''ok''"
       "\<forall>msg. fc_name fc = ''execute_javascript'' \<and>
              runFunction env (arg fc ''code'') = Throws msg
                \<longrightarrow> fr_result r = ''Error: '' @ msg"
    by auto
  have "snd (toolCall_loop env fcs s') = None" using Cons.prems(2) loop by simp
  from Cons.IH [OF r(3) this] obtain rs where
    rs: "toolResponses (effects (fst (toolCall_loop env fcs s'))) = toolResponses (effects s') @ rs"
        "map fr_id rs = map fc_id fcs"
        "\<forall>i < length fcs. fc_name (fcs ! i) \<notin> set catalog \<longrightarrow> fr_result (rs ! i) = ''ok''"
        "\<forall>i < length fcs. \<forall>msg. fc_name (fcs ! i) = ''execute_javascript'' \<and>
               runFunction env (arg (fcs ! i) ''code'') = Throws msg \<longrightarrow>
               fr_result (rs ! i) = ''Error: '' @ msg"
    by blast
  show ?case
  proof (intro exI [of _ "r # rs"] conjI allI impI)
    show "toolResponses (effects (fst (toolCall_loop env (fc # fcs) s))) =
          toolResponses (effects s) @ r # rs"
      using r(1) rs(1) loop by simp
    show "map fr_id (r # rs) = map fc_id (fc # fcs)" using r(2) rs(2) by simp
    show "fr_result ((r # rs) ! i) = ''ok''"
      if "i < length (fc # fcs)" "fc_name ((fc # fcs) ! i) \<notin> set catalog" for i
      using that r(4) rs(3) by (cases i) simp_all
    show "fr_result ((r # rs) ! i) = ''Error: '' @ msg"
      if "i < length (fc # fcs)"
         "fc_name ((fc # fcs) ! i) = ''execute_javascript'' \<and>
          runFunction env (arg ((fc # fcs) ! i) ''code'') = Throws msg" for i msg
      using that r(5) rs(4) by (cases i) simp_all
  qed
qed

lemma toolCall_loop_v1_replies:
  assumes "snd (toolCall_loop_v1 env fcs s) = None"
  shows "\<exists>rs. toolResponses (effects (fst (toolCall_loop_v1 env fcs s))) =
                toolResponses (effects s) @ rs \<and>
          map fr_id rs = map fc_id fcs \<and>
          (\<forall>i < length fcs. fc_name (fcs ! i) \<notin> set catalog_v1 \<longrightarrow> fr_result (rs ! i) = ''ok'')"
  using assms
proof (induction fcs arbitrary: s)
  case Nil
  then show ?case by simp
next
  case (Cons fc fcs)
  obtain s' o' where st: "toolCall_step_v1 env fc s = (s', o')"
    by (cases "toolCall_step_v1 env fc s")
  have o': "o' = None" using Cons.prems st by (cases o') simp_all
  have loop: "toolCall_loop_v1 env (fc # fcs) s = toolCall_loop_v1 env fcs s'"
    using st o' by simp
  from toolCall_step_v1_reply [of env fc s] st o' obtain r where
    r: "toolResponses (effects s') = toolResponses (effects s) @ [r]"
       "fr_id r = fc_id fc"
       "fc_name fc \<notin> set catalog_v1 \<longrightarrow> fr_result r = ''ok''"
    by auto
  have "snd (toolCall_loop_v1 env fcs s') = None" using Cons.prems loop by simp
  from Cons.IH [OF this] obtain rs where
    rs: "toolResponses (effects (fst (toolCall_loop_v1 env fcs s'))) =
           toolResponses (effects s') @ rs"
        "map fr_id rs = map fc_id fcs"
        "\<forall>i < length fcs. fc_name (fcs ! i) \<notin> set catalog_v1 \<longrightarrow> fr_result (rs ! i) = ''ok''"
    by blast
  show ?case
  proof (intro exI [of _ "r # rs"] conjI allI impI)
    show "toolResponses (effects (fst (toolCall_loop_v1 env (fc # fcs) s))) =
          toolResponses (effects s) @ r # rs"
      using r(1) rs(1) loop by simp
    show "map fr_id (r # rs) = map fc_id (fc # fcs)" using r(2) rs(2) by simp
    show "fr_result ((r # rs) ! i) = ''ok''"
      if "i < length (fc # fcs)" "fc_name ((fc # fcs) ! i) \<notin> set catalog_v1" for i
      using that r(3) rs(3) by (cases i) simp_all
  qed
qed

text \<open>
  \<^bold>\<open>C3\<close> is broken by the code. In the second variant, with the session in place, a batch
  of two invocations whose first is \<^verbatim>\<open>execute_javascript\<close> with code that throws \<^verbatim>\<open>null\<close>
  gets no response at all: the \<^verbatim>\<open>catch\<close> block, which is there to answer with the error
  text, reads \<^verbatim>\<open>err.message\<close> and raises \<^verbatim>\<open>TypeError\<close> itself, which ends the loop and
  the handler before anything is sent. In the first variant, whose loop catches nothing,
  the same happens when \<^verbatim>\<open>encodeURIComponent\<close> rejects the query of a search (in the
  browser, a query with a lone surrogate; here, an environment whose encoder rejects the
  query).
\<close>

theorem tool_reply_dropped:
  "toolCall_loop
     \<lparr>currentTime = 0, dateNow = 0, runFunction = (\<lambda>code. ThrowsNullish),
      getMedia = (\<lambda>ty. None), encodeURIComponent = (\<lambda>q. Some q)\<rparr>
     [\<lparr>fc_id = ''a'', fc_name = ''execute_javascript'', fc_args = [''code'' \<mapsto> ''throw null'']\<rparr>,
      \<lparr>fc_id = ''b'', fc_name = ''set_expression'', fc_args = [''expression'' \<mapsto> ''happy'']\<rparr>]
     (initial\<lparr>sessionRef := True\<rparr>)
   = (initial\<lparr>sessionRef := True\<rparr>, Some TypeError) \<and>
   toolResponses (effects (initial\<lparr>sessionRef := True\<rparr>)) = [] \<and>
   toolCall_loop_v1
     \<lparr>currentTime = 0, dateNow = 0, runFunction = (\<lambda>code. Returns None),
      getMedia = (\<lambda>ty. None), encodeURIComponent = (\<lambda>q. None)\<rparr>
     [\<lparr>fc_id = ''a'', fc_name = ''open_browser_action'',
       fc_args = [''action'' \<mapsto> ''search'', ''query'' \<mapsto> ''q'']\<rparr>,
      \<lparr>fc_id = ''b'', fc_name = ''set_expression'', fc_args = [''expression'' \<mapsto> ''happy'']\<rparr>]
     initial
   = (initial, Some URIError) \<and>
   toolResponses (effects initial) = []"
  by (simp add: toolCall_step_execute_javascript toolCall_step_v1_open_browser_action
        handleBrowserAction_def arg_def initial_def)

text \<open>
  \<^bold>\<open>C7\<close> (as amended). A \<^verbatim>\<open>set_expression\<close> invocation is not validated: in both variants
  the current expression becomes the argument, whatever string it is.
\<close>

theorem set_expression_unvalidated:
  assumes "fc_name fc = ''set_expression''"
  shows "expression (toolCall_body env fc s) = arg fc ''expression'' \<and>
         expression (toolCall_body_v1 env fc s) = arg fc ''expression''"
  using assms
  by (simp add: toolCall_body_def toolCall_body_v1_def toolCall_step_set_expression
        toolCall_step_v1_set_expression setExpression_def sendToolResponse_def
        sendToolResponse_v1_def emit_def)

theorem set_expression_unvalidated_witness:
  "expression (toolCall_body
      \<lparr>currentTime = 0, dateNow = 0, runFunction = (\<lambda>code. Returns None),
       getMedia = (\<lambda>ty. None), encodeURIComponent = (\<lambda>q. Some q)\<rparr>
      \<lparr>fc_id = ''a'', fc_name = ''set_expression'', fc_args = [''expression'' \<mapsto> ''happy'']\<rparr>
      initial) = ''happy'' \<and>
   expression (toolCall_body_v1
      \<lparr>currentTime = 0, dateNow = 0, runFunction = (\<lambda>code. Returns None),
       getMedia = (\<lambda>ty. None), encodeURIComponent = (\<lambda>q. Some q)\<rparr>
      \<lparr>fc_id = ''a'', fc_name = ''set_expression'', fc_args = [''expression'' \<mapsto> ''happy'']\<rparr>
      initial) = ''happy''"
  using set_expression_unvalidated
    [of "\<lparr>fc_id = ''a'', fc_name = ''set_expression'', fc_args = [''expression'' \<mapsto> ''happy'']\<rparr>"
        "\<lparr>currentTime = 0, dateNow = 0, runFunction = (\<lambda>code. Returns None),
          getMedia = (\<lambda>ty. None), encodeURIComponent = (\<lambda>q. Some q)\<rparr>" initial]
  by (simp add: arg_def)

text \<open>
  \<^bold>\<open>C7\<close> as stated fails: \<open>zzz\<close> is neither a base mood nor a key of the (empty) registry,
  and the invocation is not ignored; the expression changes from \<open>neutral\<close> to \<open>zzz\<close>.
\<close>

theorem set_expression_validation_counterexample:
  "''zzz'' \<notin> set base_moods \<union> dom (customExpressions initial) \<and>
   expression initial = ''neutral'' \<and>
   expression (toolCall_body
      \<lparr>currentTime = 0, dateNow = 0, runFunction = (\<lambda>code. Returns None),
       getMedia = (\<lambda>ty. None), encodeURIComponent = (\<lambda>q. Some q)\<rparr>
      \<lparr>fc_id = ''a'', fc_name = ''set_expression'', fc_args = [''expression'' \<mapsto> ''zzz'']\<rparr>
      initial) = ''zzz''"
  by (simp add: toolCall_body_def toolCall_step_set_expression setExpression_def
        sendToolResponse_def arg_def initial_def base_moods_def)

section \<open>Properties of expression resolution\<close>

lemma eye_default: "expr \<notin> set base_moods \<Longrightarrow> eye_switch expr isLeft e = e"
  by (simp add: eye_switch_def base_moods_def)

lemma mouth_default: "expr \<notin> set base_moods \<Longrightarrow> mouth_switch expr m = m"
  by (simp add: mouth_switch_def base_moods_def)

lemma eye_neutral: "eye_switch ''neutral'' isLeft e = e"
  by (simp add: eye_switch_def)

lemma mouth_neutral: "mouth_switch ''neutral'' m = m"
  by (simp add: mouth_switch_def)

lemma get_property_cases:
  "customMap expr = Some c \<Longrightarrow> get_property customMap expr = Own c"
  "customMap expr = None \<Longrightarrow> expr \<notin> set object_prototype_keys \<Longrightarrow>
     get_property customMap expr = Missing"
  "customMap expr = None \<Longrightarrow> expr \<in> set object_prototype_keys \<Longrightarrow>
     get_property customMap expr = Inherited"
  by (simp_all add: get_property_def)

text \<open>
  \<^bold>\<open>C6\<close> (as amended). A name that is neither a key of the registry nor the name of a
  member of \<^verbatim>\<open>Object.prototype\<close>, base mood or not, resolves to itself for the eyes and
  the mouth; a registered name resolves to its registered pair; in both cases, when the
  name is \<open>neutral\<close> and the status is idle, the eye expression is \<open>distracted\<close> above
  boredom 40 and \<open>sleepy\<close> above 80. An unregistered name that is not a base mood is not
  replaced by \<open>neutral\<close>: it reaches the first variant's eye and mouth components, whose
  switches have no case for it, so the mouth is drawn as for \<open>neutral\<close>, and the eyes are
  drawn as for \<open>neutral\<close> unless the status is listening or thinking.
\<close>

theorem expression_resolution:
  "(customMap expr = None \<and> expr \<notin> set object_prototype_keys \<longrightarrow>
      EmoFace customMap expr st bored =
        (Some (if expr = ''neutral'' \<and> st = Idle \<and> bored > 40
               then (if bored > 80 then ''sleepy'' else ''distracted'') else expr),
         Some expr)) \<and>
   (\<forall>c. customMap expr = Some c \<longrightarrow>
      EmoFace customMap expr st bored =
        (Some (if expr = ''neutral'' \<and> st = Idle \<and> bored > 40
               then (if bored > 80 then ''sleepy'' else ''distracted'') else eyeBase c),
         Some (mouthBase c))) \<and>
   (expr \<notin> set base_moods \<longrightarrow>
      EmoMouth st intensity (Some expr) isStartled =
        EmoMouth st intensity (Some ''neutral'') isStartled \<and>
      (st \<noteq> Listening \<and> st \<noteq> Thinking \<longrightarrow>
         EmoEye st (Some expr) isLeft isStartled blink =
           EmoEye st (Some ''neutral'') isLeft isStartled blink))"
proof (intro conjI allI impI)
  show "EmoFace customMap expr st bored =
        (Some (if expr = ''neutral'' \<and> st = Idle \<and> bored > 40
               then (if bored > 80 then ''sleepy'' else ''distracted'') else expr),
         Some expr)"
    if "customMap expr = None \<and> expr \<notin> set object_prototype_keys"
    using that by (auto simp add: EmoFace_def Let_def get_property_cases)
  show "EmoFace customMap expr st bored =
        (Some (if expr = ''neutral'' \<and> st = Idle \<and> bored > 40
               then (if bored > 80 then ''sleepy'' else ''distracted'') else eyeBase c),
         Some (mouthBase c))"
    if "customMap expr = Some c" for c
    using that by (auto simp add: EmoFace_def Let_def get_property_cases)
  show "EmoMouth st intensity (Some expr) isStartled =
        EmoMouth st intensity (Some ''neutral'') isStartled"
    if "expr \<notin> set base_moods"
    using that by (simp add: EmoMouth_def Let_def mouth_default mouth_neutral)
  show "EmoEye st (Some expr) isLeft isStartled blink =
        EmoEye st (Some ''neutral'') isLeft isStartled blink"
    if "expr \<notin> set base_moods" "st \<noteq> Listening \<and> st \<noteq> Thinking"
    using that by (simp add: EmoEye_def Let_def eye_default eye_neutral)
qed

theorem expression_resolution_witness:
  "EmoFace [''grumpy'' \<mapsto> \<lparr>name = ''grumpy'', eyeBase = ''angry'', mouthBase = ''sad''\<rparr>] ''happy'' Idle 90
     = (Some ''happy'', Some ''happy'') \<and>
   EmoFace [''grumpy'' \<mapsto> \<lparr>name = ''grumpy'', eyeBase = ''angry'', mouthBase = ''sad''\<rparr>] ''grumpy'' Idle 90
     = (Some ''angry'', Some ''sad'') \<and>
   EmoFace [''grumpy'' \<mapsto> \<lparr>name = ''grumpy'', eyeBase = ''angry'', mouthBase = ''sad''\<rparr>] ''zzz'' Idle 90
     = (Some ''zzz'', Some ''zzz'') \<and>
   EmoMouth Idle 0 (Some ''zzz'') False = EmoMouth Idle 0 (Some ''neutral'') False \<and>
   EmoEye Idle (Some ''zzz'') True False False = EmoEye Idle (Some ''neutral'') True False False"
  using
    expression_resolution [of "[''grumpy'' \<mapsto> \<lparr>name = ''grumpy'', eyeBase = ''angry'', mouthBase = ''sad''\<rparr>]"
       "''happy''" Idle 90]
    expression_resolution [of "[''grumpy'' \<mapsto> \<lparr>name = ''grumpy'', eyeBase = ''angry'', mouthBase = ''sad''\<rparr>]"
       "''grumpy''" Idle 90]
    expression_resolution [of "[''grumpy'' \<mapsto> \<lparr>name = ''grumpy'', eyeBase = ''angry'', mouthBase = ''sad''\<rparr>]"
       "''zzz''" Idle 90 0 False True False]
  by (simp add: base_moods_def object_prototype_keys_def)

text \<open>
  \<^bold>\<open>C6\<close> as stated fails: the unregistered name \<open>zzz\<close> resolves to \<open>(zzz, zzz)\<close>, not to
  \<open>(neutral, neutral)\<close>, and while listening its eye is not the eye of \<open>neutral\<close>; the base
  mood \<open>neutral\<close> resolves to \<open>(sleepy, neutral)\<close> at boredom 90 while idle; and the
  unregistered name \<open>constructor\<close>, which the registry object inherits, resolves to no
  defined pair at all.
\<close>

theorem expression_fallback_counterexample:
  "''zzz'' \<notin> set base_moods \<and>
   EmoFace Map.empty ''zzz'' Speaking 0 = (Some ''zzz'', Some ''zzz'') \<and>
   EmoFace Map.empty ''zzz'' Speaking 0 \<noteq> (Some ''neutral'', Some ''neutral'') \<and>
   EmoEye Listening (Some ''zzz'') True False False \<noteq>
     EmoEye Listening (Some ''neutral'') True False False \<and>
   ''neutral'' \<in> set base_moods \<and>
   EmoFace Map.empty ''neutral'' Idle 90 = (Some ''sleepy'', Some ''neutral'') \<and>
   ''constructor'' \<notin> set base_moods \<and>
   EmoFace Map.empty ''constructor'' Speaking 0 = (None, None)"
  by (simp add: EmoFace_def EmoEye_def eye_switch_def base_moods_def get_property_def
        object_prototype_keys_def Let_def)

section \<open>Properties of the status and the boredom counter\<close>

lemma sendToolResponse_frame:
  "status (sendToolResponse fc r s) = status s"
  "statusRef (sendToolResponse fc r s) = statusRef s"
  "boredom (sendToolResponse fc r s) = boredom s"
  "sourcesRef (sendToolResponse fc r s) = sourcesRef s"
  by (simp_all add: sendToolResponse_def emit_def)

lemma toolCall_step_frame:
  "status (fst (toolCall_step env fc s)) = status s \<and>
   statusRef (fst (toolCall_step env fc s)) = statusRef s \<and>
   boredom (fst (toolCall_step env fc s)) = boredom s \<and>
   sourcesRef (fst (toolCall_step env fc s)) = sourcesRef s"
proof (cases fc rule: catalog_cases)
  case 1
  then show ?thesis
    by (simp add: toolCall_step_set_expression sendToolResponse_frame setExpression_def)
next
  case 2
  then show ?thesis by (simp add: toolCall_step_set_sticker sendToolResponse_frame)
next
  case 3
  then show ?thesis
    by (rule toolCall_step_display_thought [of fc env s]) (simp add: sendToolResponse_frame)
next
  case 4
  then show ?thesis
    by (simp add: toolCall_step_execute_javascript sendToolResponse_frame
        split: outcome.splits)
next
  case 5
  then show ?thesis by (simp add: toolCall_step_update_face_css sendToolResponse_frame)
next
  case 6
  then show ?thesis
    by (rule toolCall_step_toggle_vision [of fc env s]) (simp add: sendToolResponse_frame)
next
  case 7
  then show ?thesis by (simp add: toolCall_step_other sendToolResponse_frame)
qed

lemma toolCall_loop_frame:
  "status (fst (toolCall_loop env fcs s)) = status s \<and>
   statusRef (fst (toolCall_loop env fcs s)) = statusRef s \<and>
   boredom (fst (toolCall_loop env fcs s)) = boredom s \<and>
   sourcesRef (fst (toolCall_loop env fcs s)) = sourcesRef s"
proof (induction fcs arbitrary: s)
  case Nil
  show ?case by simp
next
  case (Cons fc fcs)
  obtain s' o' where st: "toolCall_step env fc s = (s', o')" by (cases "toolCall_step env fc s")
  have f: "status s' = status s" "statusRef s' = statusRef s" "boredom s' = boredom s"
    "sourcesRef s' = sourcesRef s"
    using toolCall_step_frame [of env fc s] st by simp_all
  show ?case using st f Cons.IH [of s'] by (cases o') simp_all
qed

lemma playBuffer_frame:
  "status (playBuffer t buf s) = Speaking"
  "statusRef (playBuffer t buf s) = statusRef s"
  "boredom (playBuffer t buf s) = boredom s"
  "sourcesRef (playBuffer t buf s) \<noteq> []"
  by (simp_all add: playBuffer_def setStatus_def emit_def Let_def)

lemma stopAllAudio_frame:
  "status (stopAllAudio s) = Idle"
  "statusRef (stopAllAudio s) = statusRef s"
  "boredom (stopAllAudio s) = boredom s"
  by (simp_all add: stopAllAudio_def setStatus_def Let_def)

lemma onmessage_tools:
  obtains s1 o1 where
    "(case toolCall msg of Some fcs \<Rightarrow> toolCall_loop env fcs s | None \<Rightarrow> (s, None)) = (s1, o1)"
    and "status s1 = status s" and "statusRef s1 = statusRef s" and "boredom s1 = boredom s"
proof (cases "toolCall msg")
  case None
  then show ?thesis using that [of s None] by simp
next
  case (Some fcs)
  show ?thesis
    using that [of "fst (toolCall_loop env fcs s)" "snd (toolCall_loop env fcs s)"] Some
      toolCall_loop_frame [of env fcs s]
    by simp
qed

lemma onmessage_frame:
  "statusRef (fst (onmessage p env msg s)) = statusRef s"
  "boredom (fst (onmessage p env msg s)) = boredom s"
proof -
  obtain s1 o1 where t:
    "(case toolCall msg of Some fcs \<Rightarrow> toolCall_loop env fcs s | None \<Rightarrow> (s, None)) = (s1, o1)"
    and f: "status s1 = status s" "statusRef s1 = statusRef s" "boredom s1 = boredom s"
    by (rule onmessage_tools)
  show "statusRef (fst (onmessage p env msg s)) = statusRef s"
    using f by (simp add: onmessage_def t Let_def playBuffer_frame stopAllAudio_frame
        setExpression_def split: option.splits sum.splits)
  show "boredom (fst (onmessage p env msg s)) = boredom s"
    using f by (simp add: onmessage_def t Let_def playBuffer_frame stopAllAudio_frame
        setExpression_def split: option.splits sum.splits)
qed

lemma onmessage_status:
  "status (fst (onmessage p env msg s)) = status s \<or>
   status (fst (onmessage p env msg s)) = Idle \<or>
   (status (fst (onmessage p env msg s)) = Speaking \<and> modelTurn msg \<noteq> None \<and>
    \<not> interrupted msg \<and> sourcesRef (fst (onmessage p env msg s)) \<noteq> [])"
proof -
  obtain s1 o1 where t:
    "(case toolCall msg of Some fcs \<Rightarrow> toolCall_loop env fcs s | None \<Rightarrow> (s, None)) = (s1, o1)"
    and f: "status s1 = status s" "statusRef s1 = statusRef s" "boredom s1 = boredom s"
    by (rule onmessage_tools)
  show ?thesis
    using f by (simp add: onmessage_def t Let_def playBuffer_frame stopAllAudio_frame
        setExpression_def split: option.splits sum.splits)
qed

lemma onaudioprocess_frame:
  "statusRef (onaudioprocess p f s) = statusRef s"
  "boredom (onaudioprocess p f s) = boredom s"
  by (simp_all add: onaudioprocess_def sendRealtimeInput_def stopAllAudio_def setStatus_def
        emit_def Let_def)

lemma onaudioprocess_status:
  "status (onaudioprocess p f s) = status s \<or>
   status (onaudioprocess p f s) = Idle \<or>
   (status (onaudioprocess p f s) = Listening \<and> f \<noteq> [] \<and> volume f > noiseThreshold s \<and>
    statusRef s = Idle)"
  by (simp add: onaudioprocess_def sendRealtimeInput_def stopAllAudio_def setStatus_def
        emit_def Let_def)

lemma onended_frame:
  "statusRef (onended src s) = statusRef s"
  "boredom (onended src s) = boredom s"
  "status (onended src s) = status s \<or> status (onended src s) = Idle"
  by (simp_all add: onended_def setStatus_def Let_def)

lemma onclose_frame:
  "statusRef (onclose s) = statusRef s"
  "boredom (onclose s) = boredom s"
  "status (onclose s) = Idle"
  by (simp_all add: onclose_def setStatus_def stopVision_def)

lemma removeAll_Nil_iff: "removeAll x xs = [] \<longleftrightarrow> set xs \<subseteq> {x}"
  by (induction xs) auto

lemma onended_sourcesRef: "sourcesRef (onended src s) = removeAll src (sourcesRef s)"
  by (simp add: onended_def setStatus_def Let_def)

lemma onended_status:
  "status (onended src s) = (if set (sourcesRef s) \<subseteq> {src} then Idle else status s)"
  by (simp add: onended_def setStatus_def Let_def removeAll_Nil_iff)

text \<open>Once every pending source has ended, in whatever order, the set is empty and the status idle.\<close>

lemma ended_all:
  "srcs \<noteq> [] \<Longrightarrow> set (sourcesRef s) \<subseteq> set srcs \<Longrightarrow>
     sourcesRef (run p (map Ended srcs) s) = [] \<and> status (run p (map Ended srcs) s) = Idle"
proof (induction srcs arbitrary: s)
  case Nil
  then show ?case by simp
next
  case (Cons src srcs)
  show ?case
  proof (cases srcs)
    case Nil
    then have "set (sourcesRef s) \<subseteq> {src}" using Cons.prems(2) by simp
    then show ?thesis using Nil by (simp add: onended_sourcesRef onended_status removeAll_Nil_iff)
  next
    case (Cons x rest)
    then have ne: "srcs \<noteq> []" by simp
    have "set (sourcesRef (onended src s)) \<subseteq> set srcs"
      using Cons.prems(2) by (auto simp add: onended_sourcesRef)
    from Cons.IH [OF ne this] show ?thesis by simp
  qed
qed

text \<open>While a source that has not ended is pending, the ends of others leave the status alone.\<close>

lemma ended_some:
  "\<not> set (sourcesRef s) \<subseteq> set srcs \<Longrightarrow>
     sourcesRef (run p (map Ended srcs) s) = filter (\<lambda>x. x \<notin> set srcs) (sourcesRef s) \<and>
     status (run p (map Ended srcs) s) = status s"
proof (induction srcs arbitrary: s)
  case Nil
  then show ?case by simp
next
  case (Cons src srcs)
  have a: "\<not> set (sourcesRef s) \<subseteq> {src}" using Cons.prems by auto
  have b: "\<not> set (sourcesRef (onended src s)) \<subseteq> set srcs"
    using Cons.prems by (auto simp add: onended_sourcesRef)
  have c: "filter (\<lambda>x. x \<notin> set srcs) (removeAll src (sourcesRef s)) =
           filter (\<lambda>x. x \<notin> set (src # srcs)) (sourcesRef s)"
    by (induction "sourcesRef s") (auto simp add: removeAll_filter_not_eq intro: filter_cong)
  from Cons.IH [OF b] show ?case using a c by (simp add: onended_sourcesRef onended_status)
qed

lemma playBuffer_created:
  "created (playBuffer t buf s) = Suc (created s)"
  "sourcesRef (playBuffer t buf s) = sourcesRef s @ [created s]"
  by (simp_all add: playBuffer_def setStatus_def emit_def Let_def)

lemma playBuffers_sourcesRef:
  "sourcesRef (playBuffers chunks s) = sourcesRef s @ [created s ..< created s + length chunks] \<and>
   created (playBuffers chunks s) = created s + length chunks \<and>
   status (playBuffers chunks s) = (if chunks = [] then status s else Speaking)"
proof (induction chunks arbitrary: s)
  case Nil
  show ?case by simp
next
  case (Cons c chunks)
  obtain t buf where c: "c = (t, buf)" by (cases c)
  have u: "[created s ..< Suc (created s + length chunks)] =
           created s # [Suc (created s) ..< Suc (created s + length chunks)]"
    by (rule upt_conv_Cons) simp
  show ?case
    using Cons.IH [of "playBuffer t buf s"] c
    by (simp add: playBuffer_created playBuffer_frame u del: upt_Suc)
qed

text \<open>
  \<^bold>\<open>C9\<close> (as amended). The end of a source removes it from the pending set, and sets the
  status to \<open>Idle\<close> exactly when that leaves the set empty: after \<open>n\<close> chunks have been
  scheduled, the sources created for them are pending and the status is \<open>Speaking\<close>; it
  is untouched by the ends of some of them while another is pending, and once all of them
  have ended, in whatever order, the set is empty and the status is \<open>Idle\<close>, set by the
  callback of the last one. From a state with status \<open>Idle\<close>, the only events after which
  the status is not \<open>Idle\<close> are a captured frame above the threshold, which sets
  \<open>Listening\<close>, and a message whose audio chunk is scheduled, which sets \<open>Speaking\<close> and
  leaves the pending set non-empty.
\<close>

theorem idle_convergence:
  "sourcesRef (onended src s) = removeAll src (sourcesRef s) \<and>
   status (onended src s) = (if set (sourcesRef s) \<subseteq> {src} then Idle else status s) \<and>
   sourcesRef (playBuffers chunks s) = sourcesRef s @ [created s ..< created s + length chunks] \<and>
   (chunks \<noteq> [] \<longrightarrow> status (playBuffers chunks s) = Speaking) \<and>
   (srcs \<noteq> [] \<and> set (sourcesRef s) \<subseteq> set srcs \<longrightarrow>
      sourcesRef (run p (map Ended srcs) s) = [] \<and> status (run p (map Ended srcs) s) = Idle) \<and>
   (\<not> set (sourcesRef s) \<subseteq> set srcs \<longrightarrow>
      sourcesRef (run p (map Ended srcs) s) = filter (\<lambda>x. x \<notin> set srcs) (sourcesRef s) \<and>
      status (run p (map Ended srcs) s) = status s) \<and>
   (status s = Idle \<and> status (step p ev s) \<noteq> Idle \<longrightarrow>
      (\<exists>inputData. ev = AudioProcess inputData \<and> inputData \<noteq> [] \<and>
          volume inputData > noiseThreshold s \<and> status (step p ev s) = Listening) \<or>
      (\<exists>env msg. ev = Message env msg \<and> modelTurn msg \<noteq> None \<and>
          sourcesRef (step p ev s) \<noteq> [] \<and> status (step p ev s) = Speaking))"
proof (intro conjI impI)
  show "sourcesRef (onended src s) = removeAll src (sourcesRef s)"
    by (rule onended_sourcesRef)
  show "status (onended src s) = (if set (sourcesRef s) \<subseteq> {src} then Idle else status s)"
    by (rule onended_status)
  show "sourcesRef (playBuffers chunks s) =
        sourcesRef s @ [created s ..< created s + length chunks]"
    using playBuffers_sourcesRef [of chunks s] by simp
  show "status (playBuffers chunks s) = Speaking" if "chunks \<noteq> []"
    using that playBuffers_sourcesRef [of chunks s] by simp
next
  assume "srcs \<noteq> [] \<and> set (sourcesRef s) \<subseteq> set srcs"
  then show "sourcesRef (run p (map Ended srcs) s) = []" "status (run p (map Ended srcs) s) = Idle"
    using ended_all [of srcs s p] by simp_all
next
  assume "\<not> set (sourcesRef s) \<subseteq> set srcs"
  then show "sourcesRef (run p (map Ended srcs) s) = filter (\<lambda>x. x \<notin> set srcs) (sourcesRef s)"
    "status (run p (map Ended srcs) s) = status s"
    using ended_some [of s srcs p] by simp_all
next
  assume a: "status s = Idle \<and> status (step p ev s) \<noteq> Idle"
  show "(\<exists>inputData. ev = AudioProcess inputData \<and> inputData \<noteq> [] \<and>
          volume inputData > noiseThreshold s \<and> status (step p ev s) = Listening) \<or>
      (\<exists>env msg. ev = Message env msg \<and> modelTurn msg \<noteq> None \<and>
          sourcesRef (step p ev s) \<noteq> [] \<and> status (step p ev s) = Speaking)"
  proof (cases ev)
    case (AudioProcess f)
    then show ?thesis using a onaudioprocess_status [of p f s] by auto
  next
    case (Message env msg)
    then show ?thesis using a onmessage_status [of p env msg s] by auto
  next
    case (Ended x)
    then show ?thesis using a onended_frame(3) [of x s] by auto
  next
    case BoredomInterval
    then show ?thesis using a by (auto simp add: boredomInterval_def split: if_splits)
  next
    case StatusEffect
    then show ?thesis using a by (auto simp add: statusEffect_def Let_def split: if_splits)
  next
    case Close
    then show ?thesis using a by (simp add: onclose_frame)
  next
    case SessionReady
    then show ?thesis using a by simp
  qed
qed

theorem idle_convergence_witness:
  "sourcesRef (playBuffers [(0, \<lparr>sampleRate = 24000, getChannelData = [[Num 0]]\<rparr>),
                            (0, \<lparr>sampleRate = 24000, getChannelData = [[Num 0]]\<rparr>)] initial)
     = [0, 1] \<and>
   status (playBuffers [(0, \<lparr>sampleRate = 24000, getChannelData = [[Num 0]]\<rparr>),
                        (0, \<lparr>sampleRate = 24000, getChannelData = [[Num 0]]\<rparr>)] initial)
     = Speaking \<and>
   sourcesRef (run base64 [Ended 1]
      (playBuffers [(0, \<lparr>sampleRate = 24000, getChannelData = [[Num 0]]\<rparr>),
                    (0, \<lparr>sampleRate = 24000, getChannelData = [[Num 0]]\<rparr>)] initial)) = [0] \<and>
   status (run base64 [Ended 1]
      (playBuffers [(0, \<lparr>sampleRate = 24000, getChannelData = [[Num 0]]\<rparr>),
                    (0, \<lparr>sampleRate = 24000, getChannelData = [[Num 0]]\<rparr>)] initial)) = Speaking \<and>
   sourcesRef (run base64 [Ended 1, Ended 0]
      (playBuffers [(0, \<lparr>sampleRate = 24000, getChannelData = [[Num 0]]\<rparr>),
                    (0, \<lparr>sampleRate = 24000, getChannelData = [[Num 0]]\<rparr>)] initial)) = [] \<and>
   status (run base64 [Ended 1, Ended 0]
      (playBuffers [(0, \<lparr>sampleRate = 24000, getChannelData = [[Num 0]]\<rparr>),
                    (0, \<lparr>sampleRate = 24000, getChannelData = [[Num 0]]\<rparr>)] initial)) = Idle \<and>
   status initial = Idle \<and>
   status (step base64 (AudioProcess [1 / 2]) initial) = Listening"
proof -
  let ?b = "\<lparr>sampleRate = 24000, getChannelData = [[Num 0]]\<rparr>"
  let ?cs = "[(0 :: real, ?b), (0, ?b)]"
  let ?s = "playBuffers ?cs initial"
  have i: "sourcesRef initial = []" "created initial = 0" by (simp_all add: initial_def)
  have u: "[0 ..< 2] = [0, Suc 0]" by (simp add: upt_conv_Cons)
  have 1: "sourcesRef ?s = [0, 1]"
    using idle_convergence [of _ initial ?cs] i u by simp
  have "?cs \<noteq> []" by simp
  then have 2: "status ?s = Speaking"
    using idle_convergence [of _ initial ?cs] by blast
  have h3: "\<not> set (sourcesRef ?s) \<subseteq> set [1]" by (simp only: 1) simp
  have 3: "sourcesRef (run base64 (map Ended [1]) ?s) = filter (\<lambda>x. x \<notin> set [1]) (sourcesRef ?s) \<and>
           status (run base64 (map Ended [1]) ?s) = status ?s"
    using idle_convergence [of _ ?s _ "[1]" base64] h3 by blast
  have h4: "[1, 0] \<noteq> ([] :: nat list) \<and> set (sourcesRef ?s) \<subseteq> set [1, 0]"
    by (simp only: 1) simp
  have 4: "sourcesRef (run base64 (map Ended [1, 0]) ?s) = [] \<and>
           status (run base64 (map Ended [1, 0]) ?s) = Idle"
    using idle_convergence [of _ ?s _ "[1, 0]" base64] h4 by blast
  have h5: "status initial = Idle \<and> status (step base64 (AudioProcess [1 / 2]) initial) \<noteq> Idle"
    by (simp add: onaudioprocess_def sendRealtimeInput_def setStatus_def initial_def volume_def
          Let_def)
  have "(\<exists>inputData. AudioProcess [1 / 2] = AudioProcess inputData \<and> inputData \<noteq> [] \<and>
          volume inputData > noiseThreshold initial \<and>
          status (step base64 (AudioProcess [1 / 2]) initial) = Listening) \<or>
      (\<exists>env msg. AudioProcess [1 / 2] = Message env msg \<and> modelTurn msg \<noteq> None \<and>
          sourcesRef (step base64 (AudioProcess [1 / 2]) initial) \<noteq> [] \<and>
          status (step base64 (AudioProcess [1 / 2]) initial) = Speaking)"
    using idle_convergence [of _ initial _ _ base64 "AudioProcess [1 / 2]"] h5 by blast
  then have 5: "status (step base64 (AudioProcess [1 / 2]) initial) = Listening" by auto
  have e3: "sourcesRef (run base64 [Ended 1] ?s) = [0]" "status (run base64 [Ended 1] ?s) = Speaking"
    using 3 1 2 by simp_all
  have e4: "sourcesRef (run base64 [Ended 1, Ended 0] ?s) = []"
    "status (run base64 [Ended 1, Ended 0] ?s) = Idle"
    using 4 by simp_all
  show ?thesis using 1 2 e3 e4 5 h5 by blast
qed

text \<open>
  \<^bold>\<open>C9\<close> as stated fails in its last clause: an empty pending set with no chunk scheduled
  does not bring the status back to \<open>Idle\<close>. After one frame above the threshold the
  status is \<open>Listening\<close> with nothing pending, and it is still \<open>Listening\<close> after the status
  effect, seven silent frames (the hangover has run out) and a tick of the boredom timer:
  nothing in the voice gate sets the status back.
\<close>

theorem idle_convergence_counterexample:
  "sourcesRef (run base64 [AudioProcess [1 / 2]] initial) = [] \<and>
   status (run base64 [AudioProcess [1 / 2]] initial) = Listening \<and>
   sourcesRef (run base64
      [AudioProcess [1 / 2], StatusEffect, AudioProcess [0], AudioProcess [0], AudioProcess [0],
       AudioProcess [0], AudioProcess [0], AudioProcess [0], AudioProcess [0], BoredomInterval]
      initial) = [] \<and>
   status (run base64
      [AudioProcess [1 / 2], StatusEffect, AudioProcess [0], AudioProcess [0], AudioProcess [0],
       AudioProcess [0], AudioProcess [0], AudioProcess [0], AudioProcess [0], BoredomInterval]
      initial) = Listening"
  by (simp add: onaudioprocess_def sendRealtimeInput_def setStatus_def statusEffect_def
        boredomInterval_def initial_def volume_def Let_def)

lemma step_boredom:
  "boredom (step p ev s) = boredom s \<and> statusRef (step p ev s) = statusRef s \<or>
   ev = BoredomInterval \<and> statusRef s = Idle \<and> statusRef (step p ev s) = Idle \<and>
     boredom (step p ev s) = min 100 (boredom s + 1) \<or>
   ev = StatusEffect \<and> status s \<noteq> statusRef s \<and> statusRef (step p ev s) = status s \<and>
     boredom (step p ev s) = (if status s \<noteq> Idle then 0 else boredom s)"
proof (cases ev)
  case (AudioProcess f)
  then show ?thesis by (simp add: onaudioprocess_frame)
next
  case (Message env msg)
  then show ?thesis by (simp add: onmessage_frame)
next
  case (Ended x)
  then show ?thesis by (simp add: onended_frame)
next
  case BoredomInterval
  then show ?thesis by (auto simp add: boredomInterval_def)
next
  case StatusEffect
  then show ?thesis by (auto simp add: statusEffect_def Let_def)
next
  case Close
  then show ?thesis by (simp add: onclose_frame)
next
  case SessionReady
  then show ?thesis by simp
qed

lemma step_inv: "boredom_inv s \<Longrightarrow> boredom_inv (step p ev s)"
  using step_boredom [of p ev s] by (auto simp add: boredom_inv_def)

lemma run_inv: "boredom_inv s \<Longrightarrow> boredom_inv (run p evs s)"
  by (induction evs arbitrary: s) (simp_all add: step_inv)

text \<open>
  \<^bold>\<open>C10\<close> (as amended). In every state reached from the initial one: the boredom counter is
  between 0 and 100; it is 0 whenever the status the callbacks read (\<open>statusRef\<close>, the
  status as of the last run of the status effect) is not \<open>Idle\<close>; whenever \<open>status\<close> is not
  \<open>Idle\<close> the counter is 0 once the status effect has run; and the only event that
  increases the counter is the interval callback while \<open>statusRef\<close> is \<open>Idle\<close>, by
  exactly 1.
\<close>

theorem boredom_invariant:
  "0 \<le> boredom (run p evs initial) \<and> boredom (run p evs initial) \<le> 100 \<and>
   (statusRef (run p evs initial) \<noteq> Idle \<longrightarrow> boredom (run p evs initial) = 0) \<and>
   (status (run p evs initial) \<noteq> Idle \<longrightarrow> boredom (statusEffect (run p evs initial)) = 0) \<and>
   (\<forall>ev. boredom (run p evs initial) < boredom (step p ev (run p evs initial)) \<longrightarrow>
      ev = BoredomInterval \<and> statusRef (run p evs initial) = Idle \<and>
      boredom (step p ev (run p evs initial)) = boredom (run p evs initial) + 1)"
proof -
  let ?s = "run p evs initial"
  have "boredom_inv initial" by (simp add: boredom_inv_def initial_def)
  then have inv: "boredom_inv ?s" by (rule run_inv)
  have eff: "boredom (statusEffect ?s) = 0" if "status ?s \<noteq> Idle"
    using that inv by (auto simp add: statusEffect_def boredom_inv_def Let_def)
  have inc: "ev = BoredomInterval \<and> statusRef ?s = Idle \<and> boredom (step p ev ?s) = boredom ?s + 1"
    if "boredom ?s < boredom (step p ev ?s)" for ev
    using that inv step_boredom [of p ev ?s] by (auto simp add: boredom_inv_def split: if_splits)
  show ?thesis using inv eff inc by (simp add: boredom_inv_def)
qed

theorem boredom_invariant_witness:
  "statusRef (run base64 [BoredomInterval, BoredomInterval, AudioProcess [1 / 2], StatusEffect] initial)
     = Listening \<and>
   boredom (run base64 [BoredomInterval, BoredomInterval, AudioProcess [1 / 2], StatusEffect] initial) = 0 \<and>
   boredom (run base64 [BoredomInterval] initial) = 1 \<and>
   boredom (step base64 BoredomInterval (run base64 [BoredomInterval] initial)) = 2"
proof -
  let ?evs = "[BoredomInterval, BoredomInterval, AudioProcess [1 / 2], StatusEffect]"
  have h1: "statusRef (run base64 ?evs initial) = Listening"
    by (simp add: boredomInterval_def onaudioprocess_def sendRealtimeInput_def setStatus_def
          statusEffect_def initial_def volume_def Let_def)
  then have "statusRef (run base64 ?evs initial) \<noteq> Idle" by simp
  then have 1: "boredom (run base64 ?evs initial) = 0"
    using boredom_invariant [of base64 ?evs] by blast
  have b1: "boredom (run base64 [BoredomInterval] initial) = 1"
    by (simp add: boredomInterval_def initial_def)
  have h2: "boredom (run base64 [BoredomInterval] initial)
            < boredom (step base64 BoredomInterval (run base64 [BoredomInterval] initial))"
    by (simp add: boredomInterval_def initial_def)
  have "boredom (step base64 BoredomInterval (run base64 [BoredomInterval] initial)) =
        boredom (run base64 [BoredomInterval] initial) + 1"
    using boredom_invariant [of base64 "[BoredomInterval]"] h2 by blast
  then have 2: "boredom (step base64 BoredomInterval (run base64 [BoredomInterval] initial)) = 2"
    using b1 by simp
  show ?thesis using h1 1 b1 2 by simp
qed

text \<open>
  \<^bold>\<open>C10\<close> as stated fails for \<open>status\<close> itself: after a tick of the timer and a frame above
  the threshold, and before the status effect has run, the status is \<open>Listening\<close> while the
  counter is 1, and the next tick raises the counter to 2 with the status still
  \<open>Listening\<close>.
\<close>

theorem boredom_status_counterexample:
  "status (run base64 [BoredomInterval, AudioProcess [1 / 2]] initial) = Listening \<and>
   boredom (run base64 [BoredomInterval, AudioProcess [1 / 2]] initial) = 1 \<and>
   status (run base64 [BoredomInterval, AudioProcess [1 / 2], BoredomInterval] initial) = Listening \<and>
   boredom (run base64 [BoredomInterval, AudioProcess [1 / 2], BoredomInterval] initial) = 2"
  by (simp add: boredomInterval_def onaudioprocess_def sendRealtimeInput_def setStatus_def
        initial_def volume_def Let_def)

end
